theory Spec2Isabelle
  imports
    Complex_Main
    "HOL-Library.Sublist"
    "HOL-Library.Char_ord"
    "HOL-Library.List_Lexorder"
    "HOL-Library.AList"
begin

section \<open>The WebP converter (convert.py): paths, file system, policy layer\<close>

text \<open>
  The script is a batch driver around two external libraries (Pillow and CairoSVG).
  The embedding follows the script function by function.  Everything the script does
  to its surroundings is made explicit:
  \<^item> a \<open>pathlib.Path\<close> is the list of its components below a common anchor (POSIX
    flavour, no \<open>.\<close> or \<open>..\<close> components);
  \<^item> the file system is an association list from paths to nodes, passed in and
    returned;
  \<^item> an exception that the script does not catch is the \<open>Inl\<close> of a sum type;
  \<^item> the external libraries are fields of an environment record: the script only
    sees whether a call returns or raises, and what \<open>save\<close> leaves on disk.
  Strings are byte strings; \<open>str.lower\<close> and \<open>str.upper\<close> act on the ASCII letters.
\<close>

subsection \<open>Strings\<close>

definition lower_char :: "char \<Rightarrow> char" where
  "lower_char c =
     (case map_of (zip ''ABCDEFGHIJKLMNOPQRSTUVWXYZ'' ''abcdefghijklmnopqrstuvwxyz'') c of
        Some d \<Rightarrow> d | None \<Rightarrow> c)"

definition upper_char :: "char \<Rightarrow> char" where
  "upper_char c =
     (case map_of (zip ''abcdefghijklmnopqrstuvwxyz'' ''ABCDEFGHIJKLMNOPQRSTUVWXYZ'') c of
        Some d \<Rightarrow> d | None \<Rightarrow> c)"

definition lower :: "string \<Rightarrow> string" where
  "lower s = map lower_char s"

definition upper :: "string \<Rightarrow> string" where
  "upper s = map upper_char s"

text \<open>\<open>str.rfind\<close>: the index of the last occurrence, or \<open>-1\<close>.\<close>

definition rfind :: "string \<Rightarrow> char \<Rightarrow> int" where
  "rfind s c =
     (if c \<in> set s
      then int (length s) - 1 - int (length (takeWhile (\<lambda>x. x \<noteq> c) (rev s)))
      else - 1)"

subsection \<open>Pure paths (pathlib.PurePosixPath)\<close>

type_synonym path = "string list"

datatype exn =
    ValueError
  | ZeroDivisionError
  | FileExistsError
  | FileNotFoundError
  | NotADirectoryError
  | IsADirectoryError
  | PermissionError
  | OSError
  | UnicodeEncodeError

definition path_name :: "path \<Rightarrow> string" where
  "path_name p = (if p = [] then [] else last p)"

definition path_parent :: "path \<Rightarrow> path" where
  "path_parent p = butlast p"

text \<open>
  \<open>suffix\<close> and \<open>stem\<close> as pathlib computes them: \<open>i = name.rfind('.')\<close>, and the
  name has a suffix only if \<open>0 < i < len(name) - 1\<close>.
\<close>

definition path_suffix :: "path \<Rightarrow> string" where
  "path_suffix p =
     (let nm = path_name p; i = rfind nm CHR ''.''
      in if 0 < i \<and> i < int (length nm) - 1 then drop (nat i) nm else [])"

definition path_stem :: "path \<Rightarrow> string" where
  "path_stem p =
     (let nm = path_name p; i = rfind nm CHR ''.''
      in if 0 < i \<and> i < int (length nm) - 1 then take (nat i) nm else nm)"

text \<open>\<open>with_suffix\<close> raises \<open>ValueError\<close> on a path with an empty name.\<close>

definition with_suffix :: "path \<Rightarrow> string \<Rightarrow> exn + path" where
  "with_suffix p s =
     (let nm = path_name p
      in if nm = [] then Inl ValueError
         else let old_suffix = path_suffix p
              in if old_suffix = [] then Inr (path_parent p @ [nm @ s])
                 else Inr (path_parent p @ [take (length nm - length old_suffix) nm @ s]))"

text \<open>\<open>relative_to\<close> raises \<open>ValueError\<close> unless the other path is a prefix.\<close>

definition relative_to :: "path \<Rightarrow> path \<Rightarrow> exn + path" where
  "relative_to p other =
     (if prefix other p then Inr (drop (length other) p) else Inl ValueError)"

subsection \<open>The file system\<close>

type_synonym bytes = string

text \<open>
  A regular file has a modification time and a content (\<open>st_size\<close> is its length);
  a directory has a modification time and a size.  There are no links, and an
  entry that is created or removed leaves the time stamp of its directory as it was.
  The path given on the command line and the paths of the tree have names that the
  system accepts; a name that the script builds itself (\<open><stem>.webp\<close>) can be longer
  than \<open>NAME_MAX\<close> bytes, and then \<open>stat\<close> raises \<open>OSError\<close> (\<open>ENAMETOOLONG\<close>).
\<close>

datatype node = File int bytes | Dir int nat

type_synonym fs = "(path \<times> node) list"

record stat_result =
  st_mtime :: int
  st_size :: nat

definition lookup :: "fs \<Rightarrow> path \<Rightarrow> node option" where
  "lookup fs p = map_of fs p"

definition path_exists :: "fs \<Rightarrow> path \<Rightarrow> bool" where
  "path_exists fs p = (lookup fs p \<noteq> None)"

definition is_file :: "fs \<Rightarrow> path \<Rightarrow> bool" where
  "is_file fs p = (case lookup fs p of Some (File _ _) \<Rightarrow> True | _ \<Rightarrow> False)"

definition is_dir :: "fs \<Rightarrow> path \<Rightarrow> bool" where
  "is_dir fs p = (case lookup fs p of Some (Dir _ _) \<Rightarrow> True | _ \<Rightarrow> False)"

definition NAME_MAX :: nat where
  "NAME_MAX = 255"

definition name_too_long :: "path \<Rightarrow> bool" where
  "name_too_long p = list_ex (\<lambda>c. length c > NAME_MAX) p"

definition stat :: "fs \<Rightarrow> path \<Rightarrow> exn + stat_result" where
  "stat fs p =
     (case lookup fs p of
        None \<Rightarrow> (if name_too_long p then Inl OSError else Inl FileNotFoundError)
      | Some (File m c) \<Rightarrow> Inr \<lparr>st_mtime = m, st_size = length c\<rparr>
      | Some (Dir m n) \<Rightarrow> Inr \<lparr>st_mtime = m, st_size = n\<rparr>)"

text \<open>
  \<open>Path.exists()\<close> (Python 3.11) calls \<open>stat\<close> and answers \<open>False\<close> for \<open>ENOENT\<close> and
  \<open>ENOTDIR\<close>; any other \<open>OSError\<close> is raised again.
\<close>

definition Path_exists :: "fs \<Rightarrow> path \<Rightarrow> exn + bool" where
  "Path_exists fs p =
     (case stat fs p of
        Inr _ \<Rightarrow> Inr True
      | Inl e \<Rightarrow> if e = FileNotFoundError \<or> e = NotADirectoryError then Inr False else Inl e)"

subsection \<open>What the script prints\<close>

text \<open>
  The message that \<open>process_file\<close> returns is kept as a value with the data that the
  f-string formats (the rendering of sizes by \<open>format_size\<close> is left out); \<open>Empty\<close> is
  the empty string.  The lines that carry a file name are the line of line 70, the
  line of the two \<open>except\<close> handlers (lines 88 and 108) and the messages printed in
  line 303.
\<close>

type_synonym size_info = "nat \<times> nat \<times> real"

datatype message =
    Skipped string
  | AlreadyConverted string
  | ConvertedRemoved string string size_info
  | ConvertedNotDeleted string string size_info exn
  | Converted string string size_info
  | Empty

datatype line = SvgUnavailable string | FailedToConvert string | Message message

subsection \<open>The environment: module globals and the external libraries\<close>

text \<open>
  \<open>SVG_SUPPORT\<close> is fixed when the module is imported.  Of Pillow and CairoSVG the
  script observes only whether a call returns or raises (every converter wraps them
  in \<open>except Exception\<close>), and what \<open>img.save\<close> has left at the output path: the
  encoded file, nothing, or a file it had already opened for writing when it raised.
  A library call that raises is \<open>None\<close>; \<open>image_save\<close> answers \<open>Saved b\<close> when the
  encoder wrote \<open>b\<close>, and \<open>SaveRaised r\<close> when it raised, \<open>r\<close> being what it had
  written to the opened file by then, if it had opened it.
  \<open>now\<close> stamps the nodes created during the run; \<open>script_dir\<close> is
  \<open>get_script_dir()\<close>.  \<open>stdout_accepts\<close> tells whether standard output can encode
  a line (a file name need not be valid in its encoding), and \<open>may_unlink\<close> whether
  the system lets the script remove a file.
\<close>

record image =
  mode :: string
  info_transparency :: bool
  pixels :: bytes

datatype save_outcome = Saved bytes | SaveRaised "bytes option"

record env =
  SVG_SUPPORT :: bool
  script_dir :: path
  now :: int
  dir_size :: nat
  image_open :: "bytes \<Rightarrow> image option"
  image_convert :: "image \<Rightarrow> string \<Rightarrow> image option"
  image_save :: "fs \<Rightarrow> image \<Rightarrow> path \<Rightarrow> int \<Rightarrow> save_outcome"
  svg2png :: "bytes \<Rightarrow> real \<Rightarrow> bytes option"
  stdout_accepts :: "line \<Rightarrow> bool"
  may_unlink :: "path \<Rightarrow> bool"

text \<open>\<open>print\<close> raises \<open>UnicodeEncodeError\<close> for a line that standard output cannot encode.\<close>

definition print_line :: "env \<Rightarrow> line \<Rightarrow> exn option" where
  "print_line E l = (if stdout_accepts E l then None else Some UnicodeEncodeError)"

text \<open>
  The set \<open>SUPPORTED_FORMATS\<close>, as a list without repetitions: the script tests
  membership and iterates over it, and sorts what the iteration collects.
\<close>

definition SUPPORTED_FORMATS :: "env \<Rightarrow> string list" where
  "SUPPORTED_FORMATS E =
     [''.png'', ''.jpg'', ''.jpeg'', ''.gif'', ''.bmp'', ''.tiff'', ''.tif'', ''.ico'']
     @ (if SVG_SUPPORT E then [''.svg''] else [])"

subsection \<open>Directory creation (os.mkdir, Path.mkdir)\<close>

definition os_mkdir :: "env \<Rightarrow> fs \<Rightarrow> path \<Rightarrow> exn + fs" where
  "os_mkdir E fs p =
     (if path_exists fs p then Inl FileExistsError
      else case lookup fs (path_parent p) of
             None \<Rightarrow> Inl FileNotFoundError
           | Some (File _ _) \<Rightarrow> Inl NotADirectoryError
           | Some (Dir _ _) \<Rightarrow> Inr (AList.update p (Dir (now E) (dir_size E)) fs))"

text \<open>
  \<open>Path.mkdir(parents, exist_ok)\<close>: on \<open>FileNotFoundError\<close> it creates the parent
  with \<open>parents=True, exist_ok=True\<close> and retries without \<open>parents\<close>; any other
  \<open>OSError\<close> is swallowed only when \<open>exist_ok\<close> holds and the path is a directory.
\<close>

function mkdir :: "env \<Rightarrow> fs \<Rightarrow> path \<Rightarrow> bool \<Rightarrow> bool \<Rightarrow> (exn \<times> fs) + fs" where
  "mkdir E fs p parents exist_ok =
     (case os_mkdir E fs p of
        Inr fs' \<Rightarrow> Inr fs'
      | Inl e \<Rightarrow>
          if e = FileNotFoundError then
            (if \<not> parents \<or> path_parent p = p then Inl (e, fs)
             else case mkdir E fs (path_parent p) True True of
                    Inl x \<Rightarrow> Inl x
                  | Inr fs1 \<Rightarrow> mkdir E fs1 p False exist_ok)
          else if \<not> exist_ok \<or> \<not> is_dir fs p then Inl (e, fs)
          else Inr fs)"
  by pat_completeness auto
termination
proof (relation "measure (\<lambda>(E, fs, p, parents, exist_ok). 2 * length p + (if parents then 1 else 0))")
  show "wf (measure (\<lambda>(E, fs, p, parents, exist_ok). 2 * length p + (if parents then 1 else 0)))"
    by simp
next
  fix E :: env and fs :: fs and p :: path and parents exist_ok :: bool and e :: exn
  assume "\<not> (\<not> parents \<or> path_parent p = p)"
  then have "p \<noteq> []" and "parents"
    by (auto simp: path_parent_def)
  then show "((E, fs, path_parent p, True, True), (E, fs, p, parents, exist_ok))
      \<in> measure (\<lambda>(E, fs, p, parents, exist_ok). 2 * length p + (if parents then 1 else 0))"
    by (cases p rule: rev_cases) (auto simp: path_parent_def)
next
  fix E :: env and fs fs1 :: fs and p :: path and parents exist_ok :: bool and e :: exn
  assume "\<not> (\<not> parents \<or> path_parent p = p)"
  then show "((E, fs1, p, False, exist_ok), (E, fs, p, parents, exist_ok))
      \<in> measure (\<lambda>(E, fs, p, parents, exist_ok). 2 * length p + (if parents then 1 else 0))"
    by auto
qed

declare mkdir.simps [simp del]

subsection \<open>Path Resolver: get_output_path (lines 112-124)\<close>

text \<open>
  \<open>if output_dir\<close> tests for \<open>None\<close>, since a \<open>Path\<close> object is always true;
  \<open>keep_structure and base_input\<close> is \<open>base_input\<close> when \<open>keep_structure\<close> holds and
  false otherwise.
\<close>

definition get_output_path ::
  "env \<Rightarrow> fs \<Rightarrow> path \<Rightarrow> path option \<Rightarrow> bool \<Rightarrow> path option \<Rightarrow> (exn \<times> fs) + (path \<times> fs)" where
  "get_output_path E fs input_path output_dir keep_structure base_input =
     (case output_dir of
        Some d \<Rightarrow>
          (case (if keep_structure then base_input else None) of
             Some b \<Rightarrow>
               (case relative_to (path_parent input_path) b of
                  Inl e \<Rightarrow> Inl (e, fs)
                | Inr relative \<Rightarrow>
                    (let out_dir = d @ relative
                     in case mkdir E fs out_dir True True of
                          Inl x \<Rightarrow> Inl x
                        | Inr fs' \<Rightarrow> Inr (out_dir @ [path_stem input_path @ ''.webp''], fs')))
           | None \<Rightarrow> Inr (d @ [path_stem input_path @ ''.webp''], fs))
      | None \<Rightarrow>
          (case with_suffix input_path ''.webp'' of
             Inl e \<Rightarrow> Inl (e, fs)
           | Inr p \<Rightarrow> Inr (p, fs)))"


subsection \<open>Converter (lines 67-109)\<close>

text \<open>
  \<open>img.save(output_path, 'WEBP', ...)\<close> opens the output path for writing, which
  fails without effect when the path is a directory or its parent is not one; then
  the library encodes.  \<open>save\<close> returns whether the call returned normally.
\<close>

definition save :: "env \<Rightarrow> fs \<Rightarrow> image \<Rightarrow> path \<Rightarrow> int \<Rightarrow> bool \<times> fs" where
  "save E fs img output_path quality =
     (if is_dir fs output_path \<or> \<not> is_dir fs (path_parent output_path) then (False, fs)
      else case image_save E fs img output_path quality of
             Saved b \<Rightarrow> (True, AList.update output_path (File (now E) b) fs)
           | SaveRaised None \<Rightarrow> (False, fs)
           | SaveRaised (Some b) \<Rightarrow> (False, AList.update output_path (File (now E) b) fs))"

definition read_bytes :: "fs \<Rightarrow> path \<Rightarrow> bytes option" where
  "read_bytes fs p = (case lookup fs p of Some (File _ c) \<Rightarrow> Some c | _ \<Rightarrow> None)"

definition convert_svg_to_webp :: "env \<Rightarrow> fs \<Rightarrow> path \<Rightarrow> path \<Rightarrow> int \<Rightarrow> real \<Rightarrow> bool \<times> fs" where
  "convert_svg_to_webp E fs svg_path output_path quality scale =
     (if \<not> SVG_SUPPORT E then (False, fs)
      else case read_bytes fs svg_path of
        None \<Rightarrow> (False, fs)
      | Some svg \<Rightarrow>
          (case svg2png E svg scale of
             None \<Rightarrow> (False, fs)
           | Some png_data \<Rightarrow>
               (case image_open E png_data of
                  None \<Rightarrow> (False, fs)
                | Some img \<Rightarrow>
                    (case image_convert E img
                            (if mode img \<in> {''RGBA'', ''LA''} \<or> (mode img = ''P'' \<and> info_transparency img)
                             then ''RGBA'' else ''RGB'') of
                       None \<Rightarrow> (False, fs)
                     | Some img' \<Rightarrow> save E fs img' output_path quality))))"

definition convert_image_to_webp :: "env \<Rightarrow> fs \<Rightarrow> path \<Rightarrow> path \<Rightarrow> int \<Rightarrow> bool \<times> fs" where
  "convert_image_to_webp E fs image_path output_path quality =
     (case read_bytes fs image_path of
        None \<Rightarrow> (False, fs)
      | Some data \<Rightarrow>
          (case image_open E data of
             None \<Rightarrow> (False, fs)
           | Some img \<Rightarrow>
               (case image_convert E img
                       (if mode img \<in> {''RGBA'', ''LA''} \<or> (mode img = ''P'' \<and> info_transparency img)
                        then ''RGBA'' else ''RGB'') of
                  None \<Rightarrow> (False, fs)
                | Some img' \<Rightarrow> save E fs img' output_path quality)))"

subsection \<open>Per-file policy: process_file (lines 127-165)\<close>

text \<open>True division raises \<open>ZeroDivisionError\<close> on a zero divisor.\<close>

definition truediv :: "int \<Rightarrow> int \<Rightarrow> exn + real" where
  "truediv a b = (if b = 0 then Inl ZeroDivisionError else Inr (real_of_int a / real_of_int b))"

text \<open>Line 151: \<open>((original_size - new_size) / original_size) * 100 if original_size > 0 else 0\<close>.\<close>

definition reduction :: "nat \<Rightarrow> nat \<Rightarrow> exn + real" where
  "reduction original_size new_size =
     (if original_size > 0
      then (case truediv (int original_size - int new_size) (int original_size) of
              Inl e \<Rightarrow> Inl e
            | Inr q \<Rightarrow> Inr (q * 100))
      else Inr 0)"

text \<open>
  \<open>Path.unlink()\<close> fails on a missing path and on a directory, and on a file that the
  system does not let the script remove.
\<close>

definition unlink :: "env \<Rightarrow> fs \<Rightarrow> path \<Rightarrow> exn + fs" where
  "unlink E fs p =
     (case lookup fs p of
        None \<Rightarrow> Inl FileNotFoundError
      | Some (Dir _ _) \<Rightarrow> Inl IsADirectoryError
      | Some (File _ _) \<Rightarrow>
          if may_unlink E p then Inr (AList.delete p fs) else Inl PermissionError)"

text \<open>Line 139: \<open>output_path.exists() and output_path.stat().st_mtime > file_path.stat().st_mtime\<close>.\<close>

definition output_is_newer :: "fs \<Rightarrow> path \<Rightarrow> path \<Rightarrow> exn + bool" where
  "output_is_newer fs output_path file_path =
     (case Path_exists fs output_path of
        Inl e \<Rightarrow> Inl e
      | Inr False \<Rightarrow> Inr False
      | Inr True \<Rightarrow>
          (case stat fs output_path of
             Inl e \<Rightarrow> Inl e
           | Inr st_out \<Rightarrow>
               (case stat fs file_path of
                  Inl e \<Rightarrow> Inl e
                | Inr st_in \<Rightarrow> Inr (st_mtime st_out > st_mtime st_in))))"

text \<open>
  A converter that returns \<open>False\<close> has printed one line before it returns: line 70
  when SVG support is missing, otherwise the line of its \<open>except\<close> handler.  When
  \<open>print\<close> raises there, nothing catches the exception: it leaves the converter and
  \<open>process_file\<close>.  \<open>convert_svg_to_webp\<close> and \<open>convert_image_to_webp\<close> above give the
  returned value and the file system; \<open>reported\<close> adds the print to a call.
\<close>

definition reported :: "env \<Rightarrow> line \<Rightarrow> bool \<times> fs \<Rightarrow> (exn \<times> fs) + (bool \<times> fs)" where
  "reported E l r =
     (case r of
        (True, fs') \<Rightarrow> Inr (True, fs')
      | (False, fs') \<Rightarrow>
          (case print_line E l of
             None \<Rightarrow> Inr (False, fs')
           | Some e \<Rightarrow> Inl (e, fs')))"

definition process_file ::
  "env \<Rightarrow> fs \<Rightarrow> path \<Rightarrow> path option \<Rightarrow> int \<Rightarrow> real \<Rightarrow> bool \<Rightarrow> path option \<Rightarrow> bool
     \<Rightarrow> (exn \<times> fs) + ((bool \<times> message) \<times> fs)" where
  "process_file E fs file_path output_dir quality scale keep_structure base_input delete_on_success =
     (let suffix = lower (path_suffix file_path)
      in if suffix \<notin> set (SUPPORTED_FORMATS E)
         then Inr ((False, Skipped (path_name file_path)), fs)
         else
           (case get_output_path E fs file_path output_dir keep_structure base_input of
              Inl x \<Rightarrow> Inl x
            | Inr (output_path, fs1) \<Rightarrow>
                (case output_is_newer fs1 output_path file_path of
                   Inl e \<Rightarrow> Inl (e, fs1)
                 | Inr True \<Rightarrow> Inr ((True, AlreadyConverted (path_name file_path)), fs1)
                 | Inr False \<Rightarrow>
                     (case (if suffix = ''.svg''
                            then reported E
                                   (if SVG_SUPPORT E then FailedToConvert (path_name file_path)
                                    else SvgUnavailable (path_name file_path))
                                   (convert_svg_to_webp E fs1 file_path output_path quality scale)
                            else reported E (FailedToConvert (path_name file_path))
                                   (convert_image_to_webp E fs1 file_path output_path quality)) of
                        Inl x \<Rightarrow> Inl x
                      | Inr (False, fs2) \<Rightarrow> Inr ((False, Empty), fs2)
                      | Inr (True, fs2) \<Rightarrow>
                          (case stat fs2 file_path of
                             Inl e \<Rightarrow> Inl (e, fs2)
                           | Inr st_in \<Rightarrow>
                          (case stat fs2 output_path of
                             Inl e \<Rightarrow> Inl (e, fs2)
                           | Inr st_out \<Rightarrow>
                          (case reduction (st_size st_in) (st_size st_out) of
                             Inl e \<Rightarrow> Inl (e, fs2)
                           | Inr r \<Rightarrow>
                               (let size_info = (st_size st_in, st_size st_out, r)
                                in if delete_on_success
                                   then (case unlink E fs2 file_path of
                                           Inr fs3 \<Rightarrow>
                                             Inr ((True, ConvertedRemoved (path_name file_path)
                                                           (path_name output_path) size_info), fs3)
                                         | Inl e \<Rightarrow>
                                             Inr ((True, ConvertedNotDeleted (path_name file_path)
                                                           (path_name output_path) size_info e), fs2))
                                   else Inr ((True, Converted (path_name file_path)
                                                      (path_name output_path) size_info), fs2)))))))))"


subsection \<open>File Walker: find_images (lines 177-189)\<close>

text \<open>
  \<open>path.glob('*' + tail)\<close> and, when \<open>recursive\<close>, \<open>path.glob('**/*' + tail)\<close>, for
  a \<open>tail\<close> without wildcard characters.  The scan descends through directories
  only; a name matches when it ends with \<open>tail\<close>, compared case-sensitively (the
  star also matches the empty string and a leading dot); files and directories
  are both yielded.
\<close>

definition glob :: "fs \<Rightarrow> path \<Rightarrow> bool \<Rightarrow> string \<Rightarrow> path list" where
  "glob fs dir recursive tail =
     filter (\<lambda>p. strict_prefix dir p
                 \<and> (recursive \<or> length p = Suc (length dir))
                 \<and> list_all (is_dir fs) (filter (prefix dir) (prefixes (path_parent p)))
                 \<and> suffix tail (path_name p))
            (map fst fs)"

text \<open>
  \<open>sorted(set(images))\<close>: paths compare as the lists of their parts, strings by
  code point.
\<close>

definition find_images :: "env \<Rightarrow> fs \<Rightarrow> path \<Rightarrow> bool \<Rightarrow> path list" where
  "find_images E fs path recursive =
     (if is_file fs path
      then (if lower (path_suffix path) \<in> set (SUPPORTED_FORMATS E) then [path] else [])
      else sort (remdups (concat (map (\<lambda>ext. glob fs path recursive ext
                                              @ glob fs path recursive (upper ext))
                                      (SUPPORTED_FORMATS E)))))"

subsection \<open>Batch Driver: main (lines 197-313)\<close>

text \<open>
  How a run ends: \<open>sys.exit(code)\<close>, the normal return after the summary line with
  the two counters, or an exception that nothing catches.
\<close>

datatype outcome = SysExit nat | Done nat nat | Uncaught exn

text \<open>
  The loop of lines 296-307, with the counters and the printed per-file messages as
  accumulators (an empty message is not printed).  When \<open>print(message)\<close> raises, the
  run ends there.
\<close>

fun process_images ::
  "env \<Rightarrow> fs \<Rightarrow> path list \<Rightarrow> path option \<Rightarrow> int \<Rightarrow> real \<Rightarrow> bool \<Rightarrow> path option \<Rightarrow> bool
     \<Rightarrow> nat \<Rightarrow> nat \<Rightarrow> message list \<Rightarrow> outcome \<times> message list \<times> fs" where
  "process_images E fs [] output_dir quality scale keep_structure base_input delete_on_success
       success_count fail_count printed =
     (Done success_count fail_count, printed, fs)"
| "process_images E fs (image_path # images) output_dir quality scale keep_structure base_input
       delete_on_success success_count fail_count printed =
     (case process_file E fs image_path output_dir quality scale keep_structure base_input
             delete_on_success of
        Inl (e, fs') \<Rightarrow> (Uncaught e, printed, fs')
      | Inr ((success, message), fs') \<Rightarrow>
          (case (if message \<noteq> Empty then print_line E (Message message) else None) of
             Some e \<Rightarrow> (Uncaught e, printed, fs')
           | None \<Rightarrow>
               process_images E fs' images output_dir quality scale keep_structure base_input
                 delete_on_success
                 (if success then success_count + 1 else success_count)
                 (if success then fail_count else fail_count + 1)
                 (if message \<noteq> Empty then printed @ [message] else printed)))"

record args =
  args_input :: "path option"
  args_output :: "path option"
  args_quality :: int
  args_recursive :: bool
  args_scale :: real
  args_keep_structure :: bool
  args_no_delete :: bool

definition main :: "env \<Rightarrow> fs \<Rightarrow> args \<Rightarrow> outcome \<times> message list \<times> fs" where
  "main E fs a =
     (let default_mode = (args_input a = None);
          input_path = (case args_input a of None \<Rightarrow> script_dir E @ [''input''] | Some p \<Rightarrow> p);
          output_dir = (if default_mode \<and> args_output a = None
                        then Some (script_dir E @ [''output'']) else args_output a);
          delete_on_success = (if default_mode then \<not> args_no_delete a else False)
      in if \<not> path_exists fs input_path then (SysExit 1, [], fs)
         else if \<not> (1 \<le> args_quality a \<and> args_quality a \<le> 100) then (SysExit 1, [], fs)
         else
           (case (case output_dir of
                    Some d \<Rightarrow> mkdir E fs d True True
                  | None \<Rightarrow> Inr fs) of
              Inl (e, fs') \<Rightarrow> (Uncaught e, [], fs')
            | Inr fs1 \<Rightarrow>
                (let images = find_images E fs1 input_path (args_recursive a)
                 in if images = [] then (SysExit 0, [], fs1)
                    else
                      (let base_input = (if is_dir fs1 input_path then input_path
                                         else path_parent input_path)
                       in process_images E fs1 images output_dir (args_quality a) (args_scale a)
                            (args_keep_structure a) (Some base_input) delete_on_success 0 0 []))))"


subsection \<open>Auxiliary notions and concrete examples\<close>

text \<open>
  \<open>only_new_dirs E p fs fs'\<close>: the file system \<open>fs'\<close> differs from \<open>fs\<close> at most by
  directories created at formerly absent prefixes of \<open>p\<close>.
\<close>

definition only_new_dirs :: "env \<Rightarrow> path \<Rightarrow> fs \<Rightarrow> fs \<Rightarrow> bool" where
  "only_new_dirs E p fs fs' =
     (\<forall>q. lookup fs' q = lookup fs q
          \<or> (lookup fs q = None \<and> prefix q p \<and> lookup fs' q = Some (Dir (now E) (dir_size E))))"

text \<open>
  An environment whose library calls all raise, for concrete runs; standard output
  takes every line and every file may be removed.
\<close>

definition null_codec :: env where
  "null_codec =
     \<lparr>SVG_SUPPORT = False, script_dir = [''app''], now = 50, dir_size = 0,
      image_open = (\<lambda>b. None), image_convert = (\<lambda>i m. None),
      image_save = (\<lambda>fs i p q. SaveRaised None), svg2png = (\<lambda>b s. None),
      stdout_accepts = (\<lambda>l. True), may_unlink = (\<lambda>p. True)\<rparr>"

text \<open>A directory \<open>/in\<close> holding only \<open>b.txt\<close>, and command lines over it.\<close>

definition fs_txt_only :: fs where
  "fs_txt_only = [([], Dir 0 0), ([''in''], Dir 0 0), ([''in'', ''b.txt''], File 10 ''text'')]"

definition args_in :: "int \<Rightarrow> args" where
  "args_in q =
     \<lparr>args_input = Some [''in''], args_output = None, args_quality = q, args_recursive = False,
      args_scale = 1, args_keep_structure = False, args_no_delete = False\<rparr>"

text \<open>The tree of the keep-structure scenario: \<open>/in/sub/x.png\<close> and an output directory \<open>/out\<close>.\<close>

definition fs_in_out :: fs where
  "fs_in_out =
     [([], Dir 0 0), ([''in''], Dir 0 0), ([''in'', ''sub''], Dir 0 0),
      ([''in'', ''sub'', ''x.png''], File 10 ''abcd''), ([''out''], Dir 0 0)]"

text \<open>An input \<open>/in/a.png\<close> beside an output \<open>/in/a.webp\<close> that is newer.\<close>

definition fs_converted :: fs where
  "fs_converted =
     [([], Dir 0 0), ([''in''], Dir 0 0),
      ([''in'', ''a.png''], File 10 ''abcd''), ([''in'', ''a.webp''], File 20 ''w'')]"

text \<open>An environment whose library calls all succeed, the encoder writing one byte.\<close>

definition plain_codec :: env where
  "plain_codec =
     \<lparr>SVG_SUPPORT = False, script_dir = [''app''], now = 50, dir_size = 0,
      image_open = (\<lambda>b. Some \<lparr>mode = ''RGB'', info_transparency = False, pixels = b\<rparr>),
      image_convert = (\<lambda>i m. Some (i\<lparr>mode := m\<rparr>)),
      image_save = (\<lambda>fs i p q. Saved ''w''), svg2png = (\<lambda>b s. None),
      stdout_accepts = (\<lambda>l. True), may_unlink = (\<lambda>p. True)\<rparr>"

text \<open>
  The same, except that \<open>save\<close> raises after it has opened (and so emptied) the
  output file.
\<close>

definition truncating_codec :: env where
  "truncating_codec = plain_codec\<lparr>image_save := (\<lambda>fs i p q. SaveRaised (Some []))\<rparr>"

text \<open>An input \<open>/in/a.png\<close> beside an older output \<open>/in/a.webp\<close>.\<close>

definition fs_stale :: fs where
  "fs_stale =
     [([], Dir 0 0), ([''in''], Dir 0 0),
      ([''in'', ''a.png''], File 10 ''abcd''), ([''in'', ''a.webp''], File 5 ''old'')]"



text \<open>A directory holding one image whose extension is in mixed case.\<close>

definition fs_mixed_case :: fs where
  "fs_mixed_case = [([], Dir 0 0), ([''in''], Dir 0 0), ([''in'', ''a.Png''], File 10 ''abcd'')]"

text \<open>A directory holding one file whose whole name is \<open>.png\<close>.\<close>

definition fs_dot_png :: fs where
  "fs_dot_png = [([], Dir 0 0), ([''in''], Dir 0 0), ([''in'', ''.png''], File 10 ''abcd'')]"

text \<open>The environment \<open>plain_codec\<close> on a system that refuses every removal.\<close>

definition locked_codec :: env where
  "locked_codec = plain_codec\<lparr>may_unlink := (\<lambda>p. False)\<rparr>"

text \<open>
  A file whose name has \<open>NAME_MAX\<close> bytes: 251 letters and \<open>.png\<close>; the name of its
  output is one byte longer.
\<close>

definition long_png :: string where
  "long_png = replicate 251 CHR ''a'' @ ''.png''"

definition fs_long_name :: fs where
  "fs_long_name = [([], Dir 0 0), ([''in''], Dir 0 0), ([''in'', long_png], File 10 ''abcd'')]"

text \<open>
  A tree without the output directory, and the command line \<open>convert.py /in -o /out\<close>.
\<close>

definition fs_no_out :: fs where
  "fs_no_out = [([], Dir 0 0), ([''in''], Dir 0 0), ([''in'', ''x.png''], File 10 ''abcd'')]"

definition args_flat :: args where
  "args_flat =
     \<lparr>args_input = Some [''in''], args_output = Some [''out''], args_quality = 80,
      args_recursive = False, args_scale = 1, args_keep_structure = False, args_no_delete = False\<rparr>"

section \<open>Properties\<close>

subsection \<open>File-system lemmas\<close>


lemma lookup_update: "lookup (AList.update k v fs) q = (if q = k then Some v else lookup fs q)"
  by (simp add: lookup_def update_conv')

lemma lookup_delete: "lookup (AList.delete k fs) q = (if q = k then None else lookup fs q)"
  by (simp add: lookup_def delete_conv')

lemma os_mkdir_Inr:
  "os_mkdir E fs p = Inr fs' \<Longrightarrow>
     lookup fs p = None \<and> is_dir fs (path_parent p) \<and> fs' = AList.update p (Dir (now E) (dir_size E)) fs"
  by (auto simp: os_mkdir_def path_exists_def is_dir_def split: if_splits option.splits node.splits)

lemma os_mkdir_FileNotFound:
  "os_mkdir E fs p = Inl FileNotFoundError \<Longrightarrow> lookup fs p = None \<and> lookup fs (path_parent p) = None"
  by (auto simp: os_mkdir_def path_exists_def split: if_splits option.splits node.splits)

text \<open>The three ways in which mkdir returns normally.\<close>

lemma mkdir_Inr_cases:
  assumes "mkdir E fs p parents exist_ok = Inr fs'"
  obtains (created) "os_mkdir E fs p = Inr fs'"
  | (existed) "exist_ok" "is_dir fs p" "fs' = fs"
  | (parent_first) fs1 where "os_mkdir E fs p = Inl FileNotFoundError" "parents" "path_parent p \<noteq> p"
      "mkdir E fs (path_parent p) True True = Inr fs1" "mkdir E fs1 p False exist_ok = Inr fs'"
proof -
  from assms have
    "(case os_mkdir E fs p of
        Inr fs' \<Rightarrow> Inr fs'
      | Inl e \<Rightarrow>
          if e = FileNotFoundError then
            (if \<not> parents \<or> path_parent p = p then Inl (e, fs)
             else case mkdir E fs (path_parent p) True True of
                    Inl x \<Rightarrow> Inl x
                  | Inr fs1 \<Rightarrow> mkdir E fs1 p False exist_ok)
          else if \<not> exist_ok \<or> \<not> is_dir fs p then Inl (e, fs)
          else Inr fs) = Inr fs'"
    using mkdir.simps[of E fs p parents exist_ok] by metis
  then have eq: "(case os_mkdir E fs p of
        Inr fs' \<Rightarrow> Inr fs'
      | Inl e \<Rightarrow>
          if e = FileNotFoundError then
            (if \<not> parents \<or> path_parent p = p then Inl (e, fs)
             else case mkdir E fs (path_parent p) True True of
                    Inl x \<Rightarrow> Inl x
                  | Inr fs1 \<Rightarrow> mkdir E fs1 p False exist_ok)
          else if \<not> exist_ok \<or> \<not> is_dir fs p then Inl (e, fs)
          else Inr fs) = Inr fs'" .
  show thesis
  proof (cases "os_mkdir E fs p")
    case (Inr fs2)
    with eq show thesis by (simp add: created)
  next
    case (Inl e)
    show thesis
    proof (cases "e = FileNotFoundError")
      case False
      with Inl eq have "exist_ok \<and> is_dir fs p \<and> fs' = fs"
        by (simp split: if_splits)
      then show thesis by (simp add: existed)
    next
      case True
      with Inl eq have c: "parents" "path_parent p \<noteq> p"
        by (simp_all split: if_splits)
      with Inl True eq have
        r: "(case mkdir E fs (path_parent p) True True of
               Inl x \<Rightarrow> Inl x
             | Inr fs1 \<Rightarrow> mkdir E fs1 p False exist_ok) = Inr fs'"
        by simp
      show thesis
      proof (cases "mkdir E fs (path_parent p) True True")
        case (Inl x)
        with r show thesis by simp
      next
        case (Inr fs1)
        with r have "mkdir E fs1 p False exist_ok = Inr fs'" by simp
        with Inl True c Inr show thesis
          by (simp add: parent_first)
      qed
    qed
  qed
qed

lemma mkdir_effect:
  "mkdir E fs p parents exist_ok = Inr fs' \<Longrightarrow> is_dir fs' p \<and> only_new_dirs E p fs fs'"
proof (induction E fs p parents exist_ok arbitrary: fs' rule: mkdir.induct)
  case (1 E fs p parents exist_ok)
  from "1.prems" show ?case
  proof (cases rule: mkdir_Inr_cases)
    case created
    then show ?thesis
      by (auto dest!: os_mkdir_Inr simp: is_dir_def lookup_update only_new_dirs_def split: if_splits)
  next
    case existed
    then show ?thesis by (simp add: only_new_dirs_def)
  next
    case (parent_first fs1)
    have c: "\<not> (\<not> parents \<or> path_parent p = p)"
      using parent_first by simp
    have a: "only_new_dirs E (path_parent p) fs fs1"
      using "1.IH"(1)[OF parent_first(1) refl c parent_first(4)] by simp
    have b: "is_dir fs' p \<and> only_new_dirs E p fs1 fs'"
      using "1.IH"(2)[OF parent_first(1) refl c parent_first(4) parent_first(5)] .
    have pp: "prefix q p" if "prefix q (path_parent p)" for q
      using that prefixeq_butlast[of p] unfolding path_parent_def
      by (rule prefix_order.trans)
    have "only_new_dirs E p fs fs'"
      unfolding only_new_dirs_def
    proof
      fix q
      from a have a': "lookup fs1 q = lookup fs q
          \<or> (lookup fs q = None \<and> prefix q (path_parent p) \<and> lookup fs1 q = Some (Dir (now E) (dir_size E)))"
        by (simp add: only_new_dirs_def)
      from b have b': "lookup fs' q = lookup fs1 q
          \<or> (lookup fs1 q = None \<and> prefix q p \<and> lookup fs' q = Some (Dir (now E) (dir_size E)))"
        by (simp add: only_new_dirs_def)
      from a' b' pp[of q]
      show "lookup fs' q = lookup fs q
          \<or> (lookup fs q = None \<and> prefix q p \<and> lookup fs' q = Some (Dir (now E) (dir_size E)))"
        by auto
    qed
    with b show ?thesis by simp
  qed
qed

lemma mkdir_keeps_existing:
  "mkdir E fs p parents exist_ok = Inr fs' \<Longrightarrow> lookup fs q = Some n \<Longrightarrow> lookup fs' q = Some n"
proof -
  assume m: "mkdir E fs p parents exist_ok = Inr fs'" and l: "lookup fs q = Some n"
  from mkdir_effect[OF m] have "lookup fs' q = lookup fs q
      \<or> (lookup fs q = None \<and> prefix q p \<and> lookup fs' q = Some (Dir (now E) (dir_size E)))"
    unfolding only_new_dirs_def by blast
  with l show ?thesis by simp
qed

lemma mkdir_elsewhere:
  "mkdir E fs p parents exist_ok = Inr fs' \<Longrightarrow> \<not> prefix q p \<Longrightarrow> lookup fs' q = lookup fs q"
proof -
  assume m: "mkdir E fs p parents exist_ok = Inr fs'" and l: "\<not> prefix q p"
  from mkdir_effect[OF m] have "lookup fs' q = lookup fs q
      \<or> (lookup fs q = None \<and> prefix q p \<and> lookup fs' q = Some (Dir (now E) (dir_size E)))"
    unfolding only_new_dirs_def by blast
  with l show ?thesis by simp
qed

lemma mkdir_existing_dir: "is_dir fs p \<Longrightarrow> mkdir E fs p parents True = Inr fs"
  by (auto simp: mkdir.simps[of E fs p] os_mkdir_def path_exists_def is_dir_def split: option.splits node.splits)

lemma mkdir_succeeds:
  "is_dir fs d \<Longrightarrow> (\<forall>q. prefix d q \<and> prefix q (d @ r) \<longrightarrow> \<not> is_file fs q)
     \<Longrightarrow> \<exists>fs'. mkdir E fs (d @ r) True True = Inr fs'"
proof (induction r rule: rev_induct)
  case Nil
  then show ?case by (simp add: mkdir_existing_dir)
next
  case (snoc x r)
  let ?p = "d @ r @ [x]"
  have par: "path_parent ?p = d @ r"
    by (simp add: path_parent_def butlast_append)
  from snoc.prems(2) have "\<forall>q. prefix d q \<and> prefix q (d @ r) \<longrightarrow> \<not> is_file fs q"
    by (metis append.assoc prefix_order.trans prefixI)
  with snoc.IH snoc.prems(1) obtain fs1 where m1: "mkdir E fs (d @ r) True True = Inr fs1"
    by blast
  have nf: "\<not> is_file fs ?p" "\<not> is_file fs (d @ r)"
    using snoc.prems(2) by (auto simp: prefix_def)
  show ?case
  proof (cases "lookup fs ?p")
    case (Some n)
    with nf have "is_dir fs ?p"
      by (cases n) (auto simp: is_file_def is_dir_def)
    then show ?thesis using mkdir_existing_dir[of fs ?p E True] by auto
  next
    case None
    show ?thesis
    proof (cases "lookup fs (d @ r)")
      case (Some n)
      with nf obtain m k where "n = Dir m k"
        by (cases n) (auto simp: is_file_def)
      with Some None par show ?thesis
        by (simp add: mkdir.simps[of E fs ?p] os_mkdir_def path_exists_def)
    next
      case pn: None
      have np: "\<not> prefix ?p (d @ r)"
        by (auto simp: prefix_def)
      have l1: "lookup fs1 ?p = None"
        using mkdir_elsewhere[OF m1 np] None by simp
      have "is_dir fs1 (d @ r)"
        using mkdir_effect[OF m1] by simp
      with l1 par have "os_mkdir E fs1 ?p = Inr (AList.update ?p (Dir (now E) (dir_size E)) fs1)"
        by (auto simp: os_mkdir_def path_exists_def is_dir_def split: option.splits node.splits)
      then have m2: "mkdir E fs1 ?p False True = Inr (AList.update ?p (Dir (now E) (dir_size E)) fs1)"
        by (simp add: mkdir.simps[of E fs1 ?p])
      have "os_mkdir E fs ?p = Inl FileNotFoundError"
        using None pn par by (simp add: os_mkdir_def path_exists_def)
      with m1 m2 par show ?thesis
        by (simp add: mkdir.simps[of E fs ?p])
    qed
  qed
qed


subsection \<open>Size delta\<close>



subsection \<open>Path Resolver\<close>

text \<open>
  C10.  With an output directory and \<open>keep_structure\<close> set but no \<open>base_input\<close>,
  \<open>get_output_path\<close> returns \<open>output_dir/<stem>.webp\<close>, exactly what it returns with
  \<open>keep_structure\<close> unset; it raises nothing and leaves the file system as it was.
\<close>

theorem get_output_path_without_base_input:
  "get_output_path E fs input_path (Some d) True None
     = Inr (d @ [path_stem input_path @ ''.webp''], fs)
   \<and> get_output_path E fs input_path (Some d) True None
     = get_output_path E fs input_path (Some d) False base_input"
  by (simp add: get_output_path_def)

theorem get_output_path_without_base_input_witness:
  "get_output_path null_codec fs_txt_only [''in'', ''sub'', ''x.png''] (Some [''out'']) True None
     = Inr ([''out'', ''x.webp''], fs_txt_only)"
  using get_output_path_without_base_input
          [of null_codec fs_txt_only "[''in'', ''sub'', ''x.png'']" "[''out'']" None]
  by (simp add: path_stem_def path_name_def rfind_def)

subsection \<open>Batch Driver\<close>

text \<open>
  C8.  A quality below 1 or above 100 ends the run with exit code 1, with the file
  system untouched and nothing processed.  A run that passes the two checks, creates
  its output directory and then finds no supported image ends with exit code 0.
\<close>

theorem main_exit_codes:
  "((args_quality a < 1 \<or> 100 < args_quality a) \<longrightarrow> main E fs a = (SysExit 1, [], fs))
   \<and> (\<forall>input_path output_dir fs1.
        input_path = (case args_input a of None \<Rightarrow> script_dir E @ [''input''] | Some p \<Rightarrow> p)
        \<and> output_dir = (if args_input a = None \<and> args_output a = None
                         then Some (script_dir E @ [''output'']) else args_output a)
        \<and> path_exists fs input_path
        \<and> 1 \<le> args_quality a \<and> args_quality a \<le> 100
        \<and> (case output_dir of Some d \<Rightarrow> mkdir E fs d True True = Inr fs1 | None \<Rightarrow> fs1 = fs)
        \<and> find_images E fs1 input_path (args_recursive a) = []
        \<longrightarrow> main E fs a = (SysExit 0, [], fs1))"
  by (auto simp: main_def Let_def split: option.splits)

lemma find_images_txt_only: "find_images null_codec fs_txt_only [''in''] False = []"
  by (simp add: find_images_def null_codec_def fs_txt_only_def is_file_def lookup_def
        SUPPORTED_FORMATS_def glob_def upper_def upper_char_def
        path_name_def path_parent_def is_dir_def suffix_to_prefix)

theorem main_exit_codes_witness:
  "main null_codec fs_txt_only (args_in 0) = (SysExit 1, [], fs_txt_only)
   \<and> main null_codec fs_txt_only (args_in 101) = (SysExit 1, [], fs_txt_only)
   \<and> main null_codec fs_txt_only (args_in 80) = (SysExit 0, [], fs_txt_only)"
proof -
  have ex: "path_exists fs_txt_only [''in'']"
    by (simp add: path_exists_def lookup_def fs_txt_only_def)
  have "main null_codec fs_txt_only (args_in 80) = (SysExit 0, [], fs_txt_only)"
    using main_exit_codes [of "args_in 80" null_codec fs_txt_only] ex find_images_txt_only
    by (simp add: args_in_def)
  moreover have "main null_codec fs_txt_only (args_in 0) = (SysExit 1, [], fs_txt_only)"
    using main_exit_codes [of "args_in 0" null_codec fs_txt_only] by (simp add: args_in_def)
  moreover have "main null_codec fs_txt_only (args_in 101) = (SysExit 1, [], fs_txt_only)"
    using main_exit_codes [of "args_in 101" null_codec fs_txt_only] by (simp add: args_in_def)
  ultimately show ?thesis by simp
qed

subsection \<open>Destination of the output\<close>

lemma rfind_bounds: "rfind s c < int (length s)"
  by (simp add: rfind_def)

lemma path_stem_suffix: "path_stem p @ path_suffix p = path_name p"
  by (simp add: path_stem_def path_suffix_def Let_def)

lemma with_suffix_stem:
  "path_name p \<noteq> [] \<Longrightarrow> with_suffix p s = Inr (path_parent p @ [path_stem p @ s])"
proof -
  assume n: "path_name p \<noteq> []"
  let ?nm = "path_name p"
  let ?i = "rfind ?nm CHR ''.''"
  show ?thesis
  proof (cases "0 < ?i \<and> ?i < int (length ?nm) - 1")
    case True
    then have "length ?nm - length (drop (nat ?i) ?nm) = nat ?i"
      by auto
    with True n show ?thesis
      by (simp add: with_suffix_def path_stem_def path_suffix_def Let_def)
  next
    case False
    with n show ?thesis
      by (auto simp: with_suffix_def path_stem_def path_suffix_def Let_def)
  qed
qed

lemma path_suffix_name: "path_suffix p \<noteq> [] \<Longrightarrow> path_name p \<noteq> []"
  by (auto simp: path_suffix_def Let_def rfind_def split: if_splits)

lemma lower_Nil: "lower s = [] \<longleftrightarrow> s = []"
  by (simp add: lower_def)

lemma supported_nonempty: "s \<in> set (SUPPORTED_FORMATS E) \<Longrightarrow> s \<noteq> []"
  by (auto simp: SUPPORTED_FORMATS_def split: if_splits)

lemma supported_has_name:
  "lower (path_suffix p) \<in> set (SUPPORTED_FORMATS E) \<Longrightarrow> path_name p \<noteq> []"
  using supported_nonempty[of "lower (path_suffix p)" E] path_suffix_name[of p]
  by (auto simp: lower_Nil)

lemma path_parent_snoc: "path_parent (d @ [x]) = d"
  by (simp add: path_parent_def)

lemma get_output_path_mirror_Inr:
  assumes "get_output_path E fs p (Some d) True (Some b) = Inr (out, fs')"
  shows "prefix b (path_parent p)
       \<and> out = d @ drop (length b) (path_parent p) @ [path_stem p @ ''.webp'']
       \<and> mkdir E fs (d @ drop (length b) (path_parent p)) True True = Inr fs'"
  using assms
  by (auto simp: get_output_path_def relative_to_def Let_def split: if_splits sum.splits)

lemma get_output_path_mirror_returns:
  assumes "prefix b (path_parent p)" and "is_dir fs d"
    and "\<forall>q. prefix d q \<and> prefix q (d @ drop (length b) (path_parent p)) \<longrightarrow> \<not> is_file fs q"
  shows "\<exists>fs'. get_output_path E fs p (Some d) True (Some b)
           = Inr (d @ drop (length b) (path_parent p) @ [path_stem p @ ''.webp''], fs')"
proof -
  from mkdir_succeeds[OF assms(2,3)] obtain fs'
    where "mkdir E fs (d @ drop (length b) (path_parent p)) True True = Inr fs'" by blast
  with assms(1) show ?thesis
    by (simp add: get_output_path_def relative_to_def)
qed

text \<open>
  C5.  Where \<open>get_output_path\<close> puts the output: without an output directory, beside
  the input with the extension replaced by \<open>.webp\<close> (the stem is the name without its
  suffix); with an output directory and \<open>keep_structure\<close> unset, \<open>output_dir/<stem>.webp\<close>;
  with \<open>keep_structure\<close> set, the parent of the input relative to \<open>base_input\<close>
  mirrored under the output directory, and the call returns whenever \<open>base_input\<close> is
  an ancestor and no regular file stands in the way of the mirrored directory.  The
  scenario \<open>/in\<close>, \<open>/in/sub/x.png\<close>, \<open>/out\<close> gives \<open>/out/sub/x.webp\<close>.
\<close>

theorem get_output_path_destination:
  "(path_name p \<noteq> [] \<longrightarrow>
      get_output_path E fs p None keep base
        = Inr (path_parent p @ [path_stem p @ ''.webp''], fs))
   \<and> path_stem p @ path_suffix p = path_name p
   \<and> get_output_path E fs p (Some d) False base = Inr (d @ [path_stem p @ ''.webp''], fs)
   \<and> (\<forall>out fs'. get_output_path E fs p (Some d) True (Some b) = Inr (out, fs') \<longrightarrow>
         prefix b (path_parent p)
         \<and> out = d @ drop (length b) (path_parent p) @ [path_stem p @ ''.webp''])
   \<and> (prefix b (path_parent p) \<and> is_dir fs d
       \<and> (\<forall>q. prefix d q \<and> prefix q (d @ drop (length b) (path_parent p)) \<longrightarrow> \<not> is_file fs q)
       \<longrightarrow> (\<exists>fs'. get_output_path E fs p (Some d) True (Some b)
                  = Inr (d @ drop (length b) (path_parent p) @ [path_stem p @ ''.webp''], fs')))
   \<and> (is_dir fs [''out''] \<and> \<not> is_file fs [''out'', ''sub''] \<longrightarrow>
         (\<exists>fs'. get_output_path E fs [''in'', ''sub'', ''x.png''] (Some [''out'']) True (Some [''in''])
                  = Inr ([''out'', ''sub'', ''x.webp''], fs')))"
proof (intro conjI impI allI)
  assume "path_name p \<noteq> []"
  then show "get_output_path E fs p None keep base
        = Inr (path_parent p @ [path_stem p @ ''.webp''], fs)"
    by (simp add: get_output_path_def with_suffix_stem)
next
  show "path_stem p @ path_suffix p = path_name p"
    by (rule path_stem_suffix)
next
  show "get_output_path E fs p (Some d) False base = Inr (d @ [path_stem p @ ''.webp''], fs)"
    by (simp add: get_output_path_def)
next
  fix out fs'
  assume "get_output_path E fs p (Some d) True (Some b) = Inr (out, fs')"
  from get_output_path_mirror_Inr[OF this]
  show "prefix b (path_parent p)"
    and "out = d @ drop (length b) (path_parent p) @ [path_stem p @ ''.webp'']"
    by simp_all
next
  assume "prefix b (path_parent p) \<and> is_dir fs d
       \<and> (\<forall>q. prefix d q \<and> prefix q (d @ drop (length b) (path_parent p)) \<longrightarrow> \<not> is_file fs q)"
  then show "\<exists>fs'. get_output_path E fs p (Some d) True (Some b)
                  = Inr (d @ drop (length b) (path_parent p) @ [path_stem p @ ''.webp''], fs')"
    using get_output_path_mirror_returns[of b p fs d E] by blast
next
  assume a: "is_dir fs [''out''] \<and> \<not> is_file fs [''out'', ''sub'']"
  have f: "\<not> is_file fs [''out'']"
    using a by (auto simp: is_dir_def is_file_def split: option.splits node.splits)
  have "\<forall>q. prefix [''out''] q \<and> prefix q ([''out''] @ [''sub'']) \<longrightarrow> \<not> is_file fs q"
  proof (intro allI impI)
    fix q assume "prefix [''out''] q \<and> prefix q ([''out''] @ [''sub''])"
    then have "q = [''out''] \<or> q = [''out'', ''sub'']"
      by (auto simp: prefix_def append_eq_Cons_conv Cons_eq_append_conv)
    with a f show "\<not> is_file fs q" by auto
  qed
  with a have "\<exists>fs'. get_output_path E fs [''in'', ''sub'', ''x.png''] (Some [''out'']) True (Some [''in''])
      = Inr ([''out''] @ drop (length [''in'']) (path_parent [''in'', ''sub'', ''x.png''])
               @ [path_stem [''in'', ''sub'', ''x.png''] @ ''.webp''], fs')"
    by (intro get_output_path_mirror_returns) (simp_all add: path_parent_def)
  then show "\<exists>fs'. get_output_path E fs [''in'', ''sub'', ''x.png''] (Some [''out'']) True (Some [''in''])
                  = Inr ([''out'', ''sub'', ''x.webp''], fs')"
    by (simp add: path_parent_def path_stem_def path_name_def rfind_def)
qed

theorem get_output_path_destination_witness:
  "get_output_path null_codec fs_in_out [''in'', ''sub'', ''x.png''] None False None
     = Inr ([''in'', ''sub'', ''x.webp''], fs_in_out)
   \<and> get_output_path null_codec fs_in_out [''in'', ''sub'', ''x.png''] (Some [''out'']) False None
     = Inr ([''out'', ''x.webp''], fs_in_out)
   \<and> (\<exists>fs'. get_output_path null_codec fs_in_out [''in'', ''sub'', ''x.png'']
               (Some [''out'']) True (Some [''in''])
             = Inr ([''out'', ''sub'', ''x.webp''], fs'))"
proof -
  have d: "is_dir fs_in_out [''out''] \<and> \<not> is_file fs_in_out [''out'', ''sub'']"
    by (simp add: is_dir_def is_file_def lookup_def fs_in_out_def)
  have n: "path_name [''in'', ''sub'', ''x.png''] \<noteq> []"
    by (simp add: path_name_def)
  show ?thesis
    using get_output_path_destination
            [of "[''in'', ''sub'', ''x.png'']" null_codec fs_in_out False None "[''out'']" "[''in'']"]
          d n
    by (simp add: path_parent_def path_stem_def path_name_def rfind_def)
qed

subsection \<open>What the path resolution changes\<close>

lemma get_output_path_effect:
  assumes "get_output_path E fs p output_dir keep base = Inr (out, fs')"
  shows "\<exists>d. only_new_dirs E d fs fs'"
proof (cases "output_dir \<noteq> None \<and> keep \<and> base \<noteq> None")
  case True
  then obtain d b where "output_dir = Some d" "keep" "base = Some b" by auto
  with assms get_output_path_mirror_Inr[of E fs p d b out fs']
  have "mkdir E fs (d @ drop (length b) (path_parent p)) True True = Inr fs'" by simp
  from mkdir_effect[OF this] show ?thesis by blast
next
  case False
  with assms have "fs' = fs"
    by (auto simp: get_output_path_def split: option.splits sum.splits if_splits)
  then show ?thesis by (auto simp: only_new_dirs_def)
qed

lemma only_new_dirs_existing:
  "only_new_dirs E d fs fs' \<Longrightarrow> lookup fs q = Some n \<Longrightarrow> lookup fs' q = Some n"
proof -
  assume a: "only_new_dirs E d fs fs'" and l: "lookup fs q = Some n"
  from a have "lookup fs' q = lookup fs q
      \<or> (lookup fs q = None \<and> prefix q d \<and> lookup fs' q = Some (Dir (now E) (dir_size E)))"
    unfolding only_new_dirs_def by blast
  with l show ?thesis by simp
qed

lemma only_new_dirs_is_dir: "only_new_dirs E d fs fs' \<Longrightarrow> is_dir fs q \<Longrightarrow> is_dir fs' q"
proof -
  assume a: "only_new_dirs E d fs fs'" and l: "is_dir fs q"
  from l obtain n where "lookup fs q = Some n"
    by (auto simp: is_dir_def split: option.splits)
  with only_new_dirs_existing[OF a this] l show ?thesis
    by (simp add: is_dir_def)
qed

subsection \<open>Outputs that are up to date\<close>

lemma stat_cong: "lookup fs' p = lookup fs p \<Longrightarrow> stat fs' p = stat fs p"
  by (simp add: stat_def)

text \<open>
  C3.  If the input is a regular file with a supported extension and the output
  path that \<open>get_output_path\<close> computes already exists with a strictly greater
  modification time, then \<open>process_file\<close> returns success with the
  "already converted" message.  Its result is the file system that the path
  resolution left: the input and the output node are unchanged, so is every other
  existing node, and the only nodes that can be new are directories made by the
  resolver.  No converter and no deletion runs.
\<close>

theorem process_file_already_converted:
  assumes "lower (path_suffix file_path) \<in> set (SUPPORTED_FORMATS E)"
    and "get_output_path E fs file_path output_dir keep base = Inr (output_path, fs1)"
    and "lookup fs file_path = Some (File m_in content)"
    and "stat fs output_path = Inr st_out"
    and "st_mtime st_out > m_in"
  shows "process_file E fs file_path output_dir q sc keep base del
           = Inr ((True, AlreadyConverted (path_name file_path)), fs1)
       \<and> lookup fs1 file_path = lookup fs file_path
       \<and> lookup fs1 output_path = lookup fs output_path
       \<and> (\<forall>p n. lookup fs p = Some n \<longrightarrow> lookup fs1 p = Some n)
       \<and> (\<forall>p. lookup fs p = None \<longrightarrow>
              lookup fs1 p = None \<or> lookup fs1 p = Some (Dir (now E) (dir_size E)))"
proof -
  from get_output_path_effect[OF assms(2)] obtain d where d: "only_new_dirs E d fs fs1" ..
  have keep_all: "lookup fs1 p = Some n" if "lookup fs p = Some n" for p n
    using only_new_dirs_existing[OF d that] .
  from assms(4) obtain n_out where n_out: "lookup fs output_path = Some n_out"
    by (auto simp: stat_def split: option.splits if_splits)
  have l_in: "lookup fs1 file_path = lookup fs file_path"
    using keep_all[OF assms(3)] assms(3) by simp
  have l_out: "lookup fs1 output_path = lookup fs output_path"
    using keep_all[OF n_out] n_out by simp
  have s_out: "stat fs1 output_path = Inr st_out"
    using stat_cong[OF l_out] assms(4) by simp
  have s_in: "stat fs1 file_path = Inr \<lparr>st_mtime = m_in, st_size = length content\<rparr>"
    using l_in assms(3) by (simp add: stat_def)
  have ex: "Path_exists fs1 output_path = Inr True"
    using s_out by (simp add: Path_exists_def)
  have newer: "output_is_newer fs1 output_path file_path = Inr True"
    using ex s_out s_in assms(5) by (simp add: output_is_newer_def)
  have fresh: "lookup fs1 p = None \<or> lookup fs1 p = Some (Dir (now E) (dir_size E))"
    if "lookup fs p = None" for p
  proof -
    from d have "lookup fs1 p = lookup fs p
      \<or> (lookup fs p = None \<and> prefix p d \<and> lookup fs1 p = Some (Dir (now E) (dir_size E)))"
      unfolding only_new_dirs_def by blast
    with that show ?thesis by auto
  qed
  have "process_file E fs file_path output_dir q sc keep base del
           = Inr ((True, AlreadyConverted (path_name file_path)), fs1)"
    using assms(1,2) newer by (simp add: process_file_def Let_def)
  with l_in l_out keep_all fresh show ?thesis by blast
qed

theorem process_file_already_converted_witness:
  "process_file null_codec fs_converted [''in'', ''a.png''] None 80 1 False (Some [''in'']) False
     = Inr ((True, AlreadyConverted ''a.png''), fs_converted)"
proof -
  have 1: "lower (path_suffix [''in'', ''a.png'']) \<in> set (SUPPORTED_FORMATS null_codec)"
    by (simp add: lower_def lower_char_def path_suffix_def path_name_def rfind_def SUPPORTED_FORMATS_def)
  have 2: "get_output_path null_codec fs_converted [''in'', ''a.png''] None False (Some [''in''])
             = Inr ([''in'', ''a.webp''], fs_converted)"
    by (simp add: get_output_path_def with_suffix_def path_suffix_def path_name_def rfind_def path_parent_def)
  have 3: "lookup fs_converted [''in'', ''a.png''] = Some (File 10 ''abcd'')"
    by (simp add: lookup_def fs_converted_def)
  have 4: "stat fs_converted [''in'', ''a.webp''] = Inr \<lparr>st_mtime = 20, st_size = 1\<rparr>"
    by (simp add: stat_def lookup_def fs_converted_def)
  have 5: "st_mtime \<lparr>st_mtime = 20, st_size = 1\<rparr> > 10" by simp
  from process_file_already_converted[OF 1 2 3 4 5, of 80 1 False]
  show ?thesis by (simp add: path_name_def)
qed

subsection \<open>Unsupported extensions\<close>

lemma path_suffix_of_ending:
  assumes "suffix (CHR ''.'' # e) (path_name p)" and "CHR ''.'' \<notin> set e" and "e \<noteq> []"
    and "path_name p \<noteq> CHR ''.'' # e"
  shows "path_suffix p = CHR ''.'' # e"
proof -
  from assms(1) obtain zs where nm: "path_name p = zs @ CHR ''.'' # e"
    by (auto simp: suffix_def)
  with assms(4) have zs: "zs \<noteq> []" by auto
  have "takeWhile (\<lambda>x. x \<noteq> CHR ''.'') (rev (path_name p)) = rev e"
    using assms(2) by (auto simp: nm takeWhile_tail)
  then have r: "rfind (path_name p) CHR ''.'' = int (length zs)"
    by (simp add: rfind_def nm)
  show ?thesis
    using zs assms(3) by (simp add: path_suffix_def Let_def r) (simp add: nm)
qed

text \<open>Every supported extension is a dot followed by lower-case letters.\<close>

lemma supported_shape:
  assumes "ext \<in> set (SUPPORTED_FORMATS E)"
  shows "\<exists>e. ext = CHR ''.'' # e \<and> e \<noteq> [] \<and> CHR ''.'' \<notin> set e
           \<and> upper ext = CHR ''.'' # upper e \<and> CHR ''.'' \<notin> set (upper e)
           \<and> lower ext = ext \<and> lower (upper ext) = ext"
  using assms
  by (auto simp: SUPPORTED_FORMATS_def upper_def upper_char_def lower_def lower_char_def
           split: if_splits)

lemma upper_Nil: "upper s = [] \<longleftrightarrow> s = []"
  by (simp add: upper_def)

lemma glob_name: "p \<in> set (glob fs dir r tail) \<Longrightarrow> suffix tail (path_name p)"
  by (simp add: glob_def)

lemma find_images_name:
  assumes "p \<in> set (find_images E fs dir r)"
  shows "lower (path_suffix p) \<in> set (SUPPORTED_FORMATS E)
       \<or> path_name p \<in> set (SUPPORTED_FORMATS E)
       \<or> path_name p \<in> upper ` set (SUPPORTED_FORMATS E)"
proof (cases "is_file fs dir")
  case True
  with assms show ?thesis
    by (auto simp: find_images_def split: if_splits)
next
  case False
  with assms obtain ext where ext: "ext \<in> set (SUPPORTED_FORMATS E)"
    and g: "p \<in> set (glob fs dir r ext) \<or> p \<in> set (glob fs dir r (upper ext))"
    by (auto simp: find_images_def)
  from supported_shape[OF ext] obtain e where
    e: "ext = CHR ''.'' # e" "e \<noteq> []" "CHR ''.'' \<notin> set e"
       "upper ext = CHR ''.'' # upper e" "CHR ''.'' \<notin> set (upper e)"
       "lower ext = ext" "lower (upper ext) = ext"
    by blast
  from g show ?thesis
  proof
    assume "p \<in> set (glob fs dir r ext)"
    then have s: "suffix (CHR ''.'' # e) (path_name p)"
      using glob_name e(1) by auto
    show ?thesis
    proof (cases "path_name p = ext")
      case True
      with ext show ?thesis by simp
    next
      case False
      with path_suffix_of_ending[OF s e(3) e(2)] e(1) have "path_suffix p = ext" by simp
      with e(6) ext show ?thesis by simp
    qed
  next
    assume "p \<in> set (glob fs dir r (upper ext))"
    then have s: "suffix (CHR ''.'' # upper e) (path_name p)"
      using glob_name[of p fs dir r "upper ext"] e(4) by simp
    have ne: "upper e \<noteq> []" using e(2) by (simp add: upper_Nil)
    show ?thesis
    proof (cases "path_name p = upper ext")
      case True
      with ext show ?thesis by simp
    next
      case False
      with path_suffix_of_ending[OF s e(5) ne] e(4) have "path_suffix p = upper ext" by simp
      with e(7) ext show ?thesis by simp
    qed
  qed
qed

lemma b_txt_unsupported:
  "lower (path_suffix [''in'', ''b.txt'']) \<notin> set (SUPPORTED_FORMATS null_codec)"
  by (simp add: lower_def lower_char_def path_suffix_def path_name_def rfind_def
        SUPPORTED_FORMATS_def null_codec_def)

lemma dot_png_unsupported:
  "lower (path_suffix [''in'', ''.png'']) \<notin> set (SUPPORTED_FORMATS null_codec)"
  by (simp add: lower_def lower_char_def path_suffix_def path_name_def rfind_def
        SUPPORTED_FORMATS_def null_codec_def)

lemma walk_dot_png: "find_images null_codec fs_dot_png [''in''] False = [[''in'', ''.png'']]"
  by (simp add: find_images_def null_codec_def fs_dot_png_def is_file_def lookup_def
        SUPPORTED_FORMATS_def glob_def upper_def upper_char_def
        path_name_def path_parent_def is_dir_def suffix_to_prefix)

text \<open>
  Against C1: the driver keeps two counters only, and a file that \<open>process_file\<close>
  skips as unsupported comes back with \<open>success = False\<close>.  The run
  \<open>convert.py /in\<close> over a directory that holds a file named \<open>.png\<close> shows both halves
  of the claim failing: the walk returns the file, whose extension is empty
  (\<open>glob('*.png')\<close> matches the name), \<open>process_file\<close> skips it, and the run ends with
  "Converted: 0, Failed: 1".
\<close>

theorem dot_file_is_walked_and_counted_as_failed:
  "lower (path_suffix [''in'', ''.png'']) \<notin> set (SUPPORTED_FORMATS null_codec)
   \<and> find_images null_codec fs_dot_png [''in''] False = [[''in'', ''.png'']]
   \<and> main null_codec fs_dot_png (args_in 80) = (Done 0 1, [Skipped ''.png''], fs_dot_png)"
proof -
  have e: "path_exists fs_dot_png [''in'']" "is_dir fs_dot_png [''in'']"
    by (simp_all add: path_exists_def is_dir_def lookup_def fs_dot_png_def)
  have s: "stdout_accepts null_codec (Message (Skipped ''.png''))"
    by (simp add: null_codec_def)
  have "main null_codec fs_dot_png (args_in 80) = (Done 0 1, [Skipped ''.png''], fs_dot_png)"
    using dot_png_unsupported
    by (simp add: main_def Let_def args_in_def e walk_dot_png process_file_def print_line_def s
          path_name_def)
  with dot_png_unsupported walk_dot_png show ?thesis by simp
qed

text \<open>
  C1, as the code has it.  For a path whose lower-cased extension is not supported:
  the walker leaves it out of every walk, provided its whole name is not a bare
  supported extension in lower or upper case (such as \<open>.png\<close>), and returns the empty
  list when the path itself is the root file; \<open>process_file\<close> returns
  \<open>(False, "Skipped (unsupported)")\<close> and leaves the file system alone; the loop of
  \<open>main\<close> prints that message and adds one to \<open>fail_count\<close> (and ends the run when
  standard output cannot take the message).
\<close>

theorem unsupported_extension_policy:
  assumes "lower (path_suffix p) \<notin> set (SUPPORTED_FORMATS E)"
  shows "(path_name p \<notin> set (SUPPORTED_FORMATS E) \<and> path_name p \<notin> upper ` set (SUPPORTED_FORMATS E)
            \<longrightarrow> p \<notin> set (find_images E fs dir r))
       \<and> (is_file fs p \<longrightarrow> find_images E fs p r = [])
       \<and> process_file E fs p output_dir q sc keep base del
            = Inr ((False, Skipped (path_name p)), fs)
       \<and> process_images E fs (p # images) output_dir q sc keep base del success_count fail_count printed
            = (if stdout_accepts E (Message (Skipped (path_name p)))
               then process_images E fs images output_dir q sc keep base del
                      success_count (fail_count + 1) (printed @ [Skipped (path_name p)])
               else (Uncaught UnicodeEncodeError, printed, fs))"
proof (intro conjI impI)
  assume "path_name p \<notin> set (SUPPORTED_FORMATS E) \<and> path_name p \<notin> upper ` set (SUPPORTED_FORMATS E)"
  with assms find_images_name[of p E fs dir r] show "p \<notin> set (find_images E fs dir r)"
    by blast
next
  assume "is_file fs p"
  then show "find_images E fs p r = []"
    using assms by (simp add: find_images_def)
next
  show pf: "process_file E fs p output_dir q sc keep base del
            = Inr ((False, Skipped (path_name p)), fs)"
    using assms by (simp add: process_file_def Let_def)
  show "process_images E fs (p # images) output_dir q sc keep base del success_count fail_count printed
            = (if stdout_accepts E (Message (Skipped (path_name p)))
               then process_images E fs images output_dir q sc keep base del
                      success_count (fail_count + 1) (printed @ [Skipped (path_name p)])
               else (Uncaught UnicodeEncodeError, printed, fs))"
    by (simp add: pf print_line_def)
qed

theorem unsupported_extension_policy_witness:
  "[''in'', ''b.txt''] \<notin> set (find_images null_codec fs_txt_only [''in''] False)
   \<and> find_images null_codec fs_txt_only [''in'', ''b.txt''] False = []
   \<and> process_file null_codec fs_txt_only [''in'', ''b.txt''] None 80 1 False (Some [''in'']) False
        = Inr ((False, Skipped ''b.txt''), fs_txt_only)
   \<and> process_images null_codec fs_txt_only [[''in'', ''b.txt'']] (Some [''out'']) 80 1 False
        (Some [''in'']) False 3 4 []
        = (Done 3 5, [Skipped ''b.txt''], fs_txt_only)"
proof -
  have f: "is_file fs_txt_only [''in'', ''b.txt'']"
    by (simp add: is_file_def lookup_def fs_txt_only_def)
  have n: "path_name [''in'', ''b.txt''] \<notin> set (SUPPORTED_FORMATS null_codec)
      \<and> path_name [''in'', ''b.txt''] \<notin> upper ` set (SUPPORTED_FORMATS null_codec)"
    by (simp add: path_name_def SUPPORTED_FORMATS_def null_codec_def upper_def upper_char_def)
  have s: "stdout_accepts null_codec (Message (Skipped ''b.txt''))"
    by (simp add: null_codec_def)
  from unsupported_extension_policy[OF b_txt_unsupported, of fs_txt_only "[''in'']" False None 80 1 False "Some [''in'']" False]
    unsupported_extension_policy[OF b_txt_unsupported, of fs_txt_only "[''in'']" False "Some [''out'']" 80 1 False "Some [''in'']" False "[]" 3 4 "[]"]
    f n s
  show ?thesis by (simp add: path_name_def del: process_images.simps(2))
qed

subsection \<open>What the converters write\<close>

lemma save_True:
  "save E fs img out q = (True, fs') \<Longrightarrow>
     \<exists>b. image_save E fs img out q = Saved b \<and> fs' = AList.update out (File (now E) b) fs"
  by (auto simp: save_def split: if_splits save_outcome.splits option.splits)

lemma save_False:
  "save E fs img out q = (False, fs') \<Longrightarrow>
     fs' = fs \<or> (\<exists>b. image_save E fs img out q = SaveRaised (Some b)
                    \<and> fs' = AList.update out (File (now E) b) fs)"
  by (auto simp: save_def split: if_splits save_outcome.splits option.splits)

lemma convert_image_to_webp_cases:
  "convert_image_to_webp E fs src out q = (ok, fs') \<Longrightarrow>
     (\<not> ok \<and> fs' = fs) \<or> (\<exists>img. save E fs img out q = (ok, fs'))"
  by (auto simp: convert_image_to_webp_def split: option.splits)

lemma convert_svg_to_webp_cases:
  "convert_svg_to_webp E fs src out q sc = (ok, fs') \<Longrightarrow>
     (\<not> ok \<and> fs' = fs) \<or> (SVG_SUPPORT E \<and> (\<exists>img. save E fs img out q = (ok, fs')))"
  by (auto simp: convert_svg_to_webp_def split: option.splits if_splits)

lemma convert_image_True:
  "convert_image_to_webp E fs src out q = (True, fs') \<Longrightarrow>
     \<exists>b. fs' = AList.update out (File (now E) b) fs"
  using convert_image_to_webp_cases[of E fs src out q True fs'] save_True[of E fs _ out q fs']
  by auto

lemma convert_svg_True:
  "convert_svg_to_webp E fs src out q sc = (True, fs') \<Longrightarrow>
     \<exists>b. fs' = AList.update out (File (now E) b) fs"
  using convert_svg_to_webp_cases[of E fs src out q sc True fs'] save_True[of E fs _ out q fs']
  by auto

lemma convert_image_False:
  "convert_image_to_webp E fs src out q = (False, fs') \<Longrightarrow>
     fs' = fs \<or> (\<exists>img b. image_save E fs img out q = SaveRaised (Some b)
                    \<and> fs' = AList.update out (File (now E) b) fs)"
  using convert_image_to_webp_cases[of E fs src out q False fs'] save_False[of E fs _ out q fs']
  by auto

lemma convert_svg_False:
  "convert_svg_to_webp E fs src out q sc = (False, fs') \<Longrightarrow>
     fs' = fs \<or> (\<exists>img b. image_save E fs img out q = SaveRaised (Some b)
                    \<and> fs' = AList.update out (File (now E) b) fs)"
  using convert_svg_to_webp_cases[of E fs src out q sc False fs'] save_False[of E fs _ out q fs']
  by auto

text \<open>
  Against C7: the converters have no cleanup of their own.  When \<open>save\<close> raises after it has
  opened the output file, the converter returns \<open>False\<close> and the emptied file stays:
  here a stale \<open>a.webp\<close> of three bytes is left with none.
\<close>

theorem failed_save_leaves_truncated_output:
  "lookup fs_stale [''in'', ''a.webp''] = Some (File 5 ''old'')
   \<and> convert_image_to_webp truncating_codec fs_stale [''in'', ''a.png''] [''in'', ''a.webp''] 80
       = (False, AList.update [''in'', ''a.webp''] (File 50 []) fs_stale)
   \<and> lookup (AList.update [''in'', ''a.webp''] (File 50 []) fs_stale) [''in'', ''a.webp'']
       = Some (File 50 [])"
  by (simp add: convert_image_to_webp_def read_bytes_def save_def is_dir_def lookup_def
        path_parent_def fs_stale_def truncating_codec_def plain_codec_def)

text \<open>
  C7, as the code has it.  When a converter (raster or SVG) returns success, exactly
  one node has been written, the output path, and it is a regular file.  When it
  returns failure, the file system is either unchanged or holds at the output path
  what a raising \<open>save\<close> call left there.  Nothing is written when SVG support is
  missing, when the source cannot be read, and when rasterization, decoding or mode
  conversion raises.
\<close>

theorem converter_writes:
  "(convert_image_to_webp E fs src out q = (True, fs') \<or>
    convert_svg_to_webp E fs src out q sc = (True, fs')
      \<longrightarrow> (\<exists>b. lookup fs' out = Some (File (now E) b)) \<and> (\<forall>p. p \<noteq> out \<longrightarrow> lookup fs' p = lookup fs p))
   \<and> (convert_image_to_webp E fs src out q = (False, fs') \<or>
       convert_svg_to_webp E fs src out q sc = (False, fs')
      \<longrightarrow> fs' = fs \<or> (\<exists>img b. image_save E fs img out q = SaveRaised (Some b)
                           \<and> fs' = AList.update out (File (now E) b) fs))
   \<and> (\<not> SVG_SUPPORT E \<longrightarrow> convert_svg_to_webp E fs src out q sc = (False, fs))
   \<and> (read_bytes fs src = None \<longrightarrow>
         convert_image_to_webp E fs src out q = (False, fs)
         \<and> convert_svg_to_webp E fs src out q sc = (False, fs))
   \<and> ((\<forall>data. read_bytes fs src = Some data \<longrightarrow> image_open E data = None) \<longrightarrow>
         convert_image_to_webp E fs src out q = (False, fs))
   \<and> ((\<forall>data. read_bytes fs src = Some data \<longrightarrow> svg2png E data sc = None) \<longrightarrow>
         convert_svg_to_webp E fs src out q sc = (False, fs))
   \<and> ((\<forall>img m. image_convert E img m = None) \<longrightarrow>
         convert_image_to_webp E fs src out q = (False, fs)
         \<and> convert_svg_to_webp E fs src out q sc = (False, fs))"
proof (intro conjI impI)
  assume "convert_image_to_webp E fs src out q = (True, fs') \<or>
    convert_svg_to_webp E fs src out q sc = (True, fs')"
  then obtain b where "fs' = AList.update out (File (now E) b) fs"
    using convert_image_True[of E fs src out q fs'] convert_svg_True[of E fs src out q sc fs']
    by blast
  then show "\<exists>b. lookup fs' out = Some (File (now E) b)"
    and "\<forall>p. p \<noteq> out \<longrightarrow> lookup fs' p = lookup fs p"
    by (simp_all add: lookup_update)
next
  assume "convert_image_to_webp E fs src out q = (False, fs') \<or>
       convert_svg_to_webp E fs src out q sc = (False, fs')"
  then show "fs' = fs \<or> (\<exists>img b. image_save E fs img out q = SaveRaised (Some b)
                           \<and> fs' = AList.update out (File (now E) b) fs)"
    using convert_image_False[of E fs src out q fs'] convert_svg_False[of E fs src out q sc fs']
    by blast
next
  assume "\<not> SVG_SUPPORT E"
  then show "convert_svg_to_webp E fs src out q sc = (False, fs)"
    by (simp add: convert_svg_to_webp_def)
next
  assume "read_bytes fs src = None"
  then show "convert_image_to_webp E fs src out q = (False, fs)"
    and "convert_svg_to_webp E fs src out q sc = (False, fs)"
    by (simp_all add: convert_image_to_webp_def convert_svg_to_webp_def)
next
  assume "\<forall>data. read_bytes fs src = Some data \<longrightarrow> image_open E data = None"
  then show "convert_image_to_webp E fs src out q = (False, fs)"
    by (simp add: convert_image_to_webp_def split: option.splits)
next
  assume "\<forall>data. read_bytes fs src = Some data \<longrightarrow> svg2png E data sc = None"
  then show "convert_svg_to_webp E fs src out q sc = (False, fs)"
    by (simp add: convert_svg_to_webp_def split: option.splits)
next
  assume a: "\<forall>img m. image_convert E img m = None"
  then show "convert_image_to_webp E fs src out q = (False, fs)"
    by (simp add: convert_image_to_webp_def split: option.splits)
  from a show "convert_svg_to_webp E fs src out q sc = (False, fs)"
    by (simp add: convert_svg_to_webp_def split: option.splits)
qed

theorem converter_writes_witness:
  "convert_image_to_webp plain_codec fs_stale [''in'', ''a.png''] [''in'', ''a.webp''] 80
     = (True, AList.update [''in'', ''a.webp''] (File 50 ''w'') fs_stale)
   \<and> lookup (AList.update [''in'', ''a.webp''] (File 50 ''w'') fs_stale) [''in'', ''a.png'']
       = lookup fs_stale [''in'', ''a.png'']
   \<and> convert_image_to_webp null_codec fs_stale [''in'', ''a.png''] [''in'', ''a.webp''] 80
     = (False, fs_stale)
   \<and> convert_svg_to_webp null_codec fs_stale [''in'', ''a.svg''] [''in'', ''a.webp''] 80 1
     = (False, fs_stale)"
proof -
  have r: "convert_image_to_webp plain_codec fs_stale [''in'', ''a.png''] [''in'', ''a.webp''] 80
     = (True, AList.update [''in'', ''a.webp''] (File 50 ''w'') fs_stale)"
    by (simp add: convert_image_to_webp_def read_bytes_def save_def is_dir_def lookup_def
        path_parent_def fs_stale_def plain_codec_def)
  have n: "\<not> SVG_SUPPORT null_codec"
    by (simp add: null_codec_def)
  have c: "\<forall>img m. image_convert null_codec img m = None"
    by (simp add: null_codec_def)
  have d: "[''in'', ''a.png''] \<noteq> [''in'', ''a.webp'']" by simp
  note cw = converter_writes[of plain_codec fs_stale "[''in'', ''a.png'']" "[''in'', ''a.webp'']" 80
         "AList.update [''in'', ''a.webp''] (File 50 ''w'') fs_stale" 1]
  note w = cw[THEN conjunct1, THEN mp, OF disjI1, OF r, THEN conjunct2]
  have "lookup (AList.update [''in'', ''a.webp''] (File 50 ''w'') fs_stale) [''in'', ''a.png'']
       = lookup fs_stale [''in'', ''a.png'']"
    by (rule w[THEN spec, THEN mp, OF d])
  moreover have "convert_image_to_webp null_codec fs_stale [''in'', ''a.png''] [''in'', ''a.webp''] 80
     = (False, fs_stale)"
    by (rule converter_writes[of null_codec fs_stale "[''in'', ''a.png'']" "[''in'', ''a.webp'']" 80
         fs_stale 1, THEN conjunct2, THEN conjunct2, THEN conjunct2, THEN conjunct2,
         THEN conjunct2, THEN conjunct2, THEN mp, OF c, THEN conjunct1])
  moreover have "convert_svg_to_webp null_codec fs_stale [''in'', ''a.svg''] [''in'', ''a.webp''] 80 1
     = (False, fs_stale)"
    by (rule converter_writes[of null_codec fs_stale "[''in'', ''a.svg'']" "[''in'', ''a.webp'']" 80
         fs_stale 1, THEN conjunct2, THEN conjunct2, THEN conjunct1, THEN mp, OF n])
  ultimately show ?thesis using r by simp
qed

subsection \<open>The walk and the case of extensions\<close>

lemmas walk_defs = find_images_def is_file_def is_dir_def lookup_def
  SUPPORTED_FORMATS_def glob_def upper_def upper_char_def lower_def lower_char_def
  path_name_def path_parent_def path_suffix_def rfind_def suffix_to_prefix

text \<open>
  C6.  The directory walk globs each extension in lower and in upper case only.  A
  file \<open>a.Png\<close> has a supported extension (\<open>suffix.lower()\<close> is \<open>.png\<close>, and the walk
  accepts it when it is the root itself), but a walk of its directory, recursive or
  not, does not find it.
\<close>

theorem find_images_misses_mixed_case:
  "is_file fs_mixed_case [''in'', ''a.Png'']
   \<and> lower (path_suffix [''in'', ''a.Png'']) \<in> set (SUPPORTED_FORMATS null_codec)
   \<and> find_images null_codec fs_mixed_case [''in''] False = []
   \<and> find_images null_codec fs_mixed_case [''in''] True = []
   \<and> find_images null_codec fs_mixed_case [''in'', ''a.Png''] False = [[''in'', ''a.Png'']]"
  by (simp add: walk_defs fs_mixed_case_def null_codec_def)

subsection \<open>Errors that reach the batch\<close>


lemma supported_png:
  "lower (path_suffix (d @ [''a.png''])) \<in> set (SUPPORTED_FORMATS E)"
  "lower (path_suffix (d @ [''x.png''])) \<in> set (SUPPORTED_FORMATS E)"
  by (simp_all add: lower_def lower_char_def path_suffix_def path_name_def rfind_def
        SUPPORTED_FORMATS_def)

lemma not_too_long_a_webp: "\<not> name_too_long (d @ [''a.webp'']) \<longleftrightarrow> \<not> name_too_long d"
  by (simp add: name_too_long_def NAME_MAX_def)




lemma stat_Inr: "lookup fs p = Some n \<Longrightarrow> \<exists>st. stat fs p = Inr st"
  by (cases n) (simp_all add: stat_def)

lemma Path_exists_present: "lookup fs p = Some n \<Longrightarrow> Path_exists fs p = Inr True"
  using stat_Inr[of fs p n] by (auto simp: Path_exists_def)







lemma svg_supported: "''.svg'' \<in> set (SUPPORTED_FORMATS E) \<Longrightarrow> SVG_SUPPORT E"
  by (auto simp: SUPPORTED_FORMATS_def split: if_splits)


text \<open>
  The call of a converter in \<open>process_file\<close> (lines 142-145), with what it prints.
\<close>

lemma converter_call_cases:
  assumes sup: "lower (path_suffix f) \<in> set (SUPPORTED_FORMATS E)"
  obtains (raised) fs2 where
      "(if lower (path_suffix f) = ''.svg''
        then reported E (if SVG_SUPPORT E then FailedToConvert (path_name f)
                         else SvgUnavailable (path_name f))
               (convert_svg_to_webp E fs1 f out q sc)
        else reported E (FailedToConvert (path_name f))
               (convert_image_to_webp E fs1 f out q)) = Inl (UnicodeEncodeError, fs2)"
      "\<not> stdout_accepts E (FailedToConvert (path_name f))"
  | (returned) ok fs2 where
      "(if lower (path_suffix f) = ''.svg''
        then reported E (if SVG_SUPPORT E then FailedToConvert (path_name f)
                         else SvgUnavailable (path_name f))
               (convert_svg_to_webp E fs1 f out q sc)
        else reported E (FailedToConvert (path_name f))
               (convert_image_to_webp E fs1 f out q)) = Inr (ok, fs2)"
      "(if lower (path_suffix f) = ''.svg''
        then convert_svg_to_webp E fs1 f out q sc
        else convert_image_to_webp E fs1 f out q) = (ok, fs2)"
proof -
  let ?conv = "if lower (path_suffix f) = ''.svg''
               then convert_svg_to_webp E fs1 f out q sc
               else convert_image_to_webp E fs1 f out q"
  obtain ok fs2 where c: "?conv = (ok, fs2)" by (cases ?conv)
  have svg: "SVG_SUPPORT E" if "lower (path_suffix f) = ''.svg''"
    using that sup svg_supported by simp
  show thesis
  proof (cases "ok \<or> stdout_accepts E (FailedToConvert (path_name f))")
    case True
    with c svg have "(if lower (path_suffix f) = ''.svg''
        then reported E (if SVG_SUPPORT E then FailedToConvert (path_name f)
                         else SvgUnavailable (path_name f))
               (convert_svg_to_webp E fs1 f out q sc)
        else reported E (FailedToConvert (path_name f))
               (convert_image_to_webp E fs1 f out q)) = Inr (ok, fs2)"
      by (auto simp: reported_def print_line_def split: if_splits bool.splits)
    from returned[OF this c] show thesis .
  next
    case False
    with c svg have "(if lower (path_suffix f) = ''.svg''
        then reported E (if SVG_SUPPORT E then FailedToConvert (path_name f)
                         else SvgUnavailable (path_name f))
               (convert_svg_to_webp E fs1 f out q sc)
        else reported E (FailedToConvert (path_name f))
               (convert_image_to_webp E fs1 f out q)) = Inl (UnicodeEncodeError, fs2)"
      by (auto simp: reported_def print_line_def split: if_splits bool.splits)
    with False show thesis by (auto intro: raised)
  qed
qed




lemma unlink_Inr: "unlink E fs p = Inr fs' \<Longrightarrow> fs' = AList.delete p fs \<and> is_file fs p"
  by (auto simp: unlink_def is_file_def split: option.splits node.splits if_splits)


lemma name_too_long_snoc:
  "name_too_long (d @ [c]) \<longleftrightarrow> name_too_long d \<or> length c > NAME_MAX"
  by (auto simp: name_too_long_def)



text \<open>
  A deletion that the system refuses is reported in the message and leaves the
  result a success (lines 160-161).
\<close>

lemma refused_unlink_is_reported:
  "process_file locked_codec fs_stale [''in'', ''a.png''] None 80 1 False None True
     = Inr ((True, ConvertedNotDeleted ''a.png'' ''a.webp'' (4, 1, 75) PermissionError),
            AList.update [''in'', ''a.webp''] (File 50 ''w'') fs_stale)"
proof -
  let ?fs2 = "AList.update [''in'', ''a.webp''] (File 50 ''w'') fs_stale"
  have g: "get_output_path locked_codec fs_stale [''in'', ''a.png''] None False None
             = Inr ([''in'', ''a.webp''], fs_stale)"
    by (simp add: get_output_path_def with_suffix_def path_suffix_def path_name_def rfind_def
          path_parent_def)
  have n: "output_is_newer fs_stale [''in'', ''a.webp''] [''in'', ''a.png''] = Inr False"
    by (simp add: output_is_newer_def Path_exists_def stat_def lookup_def fs_stale_def)
  have c: "convert_image_to_webp locked_codec fs_stale [''in'', ''a.png''] [''in'', ''a.webp''] 80
             = (True, ?fs2)"
    by (simp add: convert_image_to_webp_def read_bytes_def save_def is_dir_def lookup_def
          path_parent_def fs_stale_def locked_codec_def plain_codec_def)
  have s1: "stat ?fs2 [''in'', ''a.png''] = Inr \<lparr>st_mtime = 10, st_size = 4\<rparr>"
    by (simp add: stat_def lookup_update) (simp add: lookup_def fs_stale_def)
  have s2: "stat ?fs2 [''in'', ''a.webp''] = Inr \<lparr>st_mtime = 50, st_size = 1\<rparr>"
    by (simp add: stat_def lookup_update)
  have r: "reduction 4 (Suc 0) = Inr 75"
    by (simp add: reduction_def truediv_def)
  have u: "unlink locked_codec ?fs2 [''in'', ''a.png''] = Inl PermissionError"
    by (simp add: unlink_def lookup_update locked_codec_def) (simp add: lookup_def fs_stale_def)
  have s: "lower (path_suffix [''in'', ''a.png'']) \<in> set (SUPPORTED_FORMATS locked_codec)"
    using supported_png(1)[of "[''in'']" locked_codec] by simp
  have ns: "lower (path_suffix [''in'', ''a.png'']) \<noteq> ''.svg''"
    by (simp add: lower_def lower_char_def path_suffix_def path_name_def rfind_def)
  show ?thesis
    using s ns by (simp add: process_file_def Let_def g n c reported_def s1 s2 r u)
                  (simp add: path_name_def)
qed

lemma long_png_parts:
  "path_suffix [''in'', long_png] = ''.png''"
  "path_stem [''in'', long_png] = replicate 251 CHR ''a''"
proof -
  have n: "path_name [''in'', long_png] = long_png"
    by (simp add: path_name_def)
  have "suffix (CHR ''.'' # ''png'') long_png"
    unfolding long_png_def by (rule suffix_appendI) simp
  then have "suffix (CHR ''.'' # ''png'') (path_name [''in'', long_png])"
    by (simp only: n)
  moreover have "path_name [''in'', long_png] \<noteq> CHR ''.'' # ''png''"
  proof
    assume "path_name [''in'', long_png] = CHR ''.'' # ''png''"
    then have "length long_png = length ''.png''" by (simp add: n)
    then show False by (simp add: long_png_def)
  qed
  ultimately show s: "path_suffix [''in'', long_png] = ''.png''"
    by (intro path_suffix_of_ending) simp_all
  from path_stem_suffix[of "[''in'', long_png]"] s n
  show "path_stem [''in'', long_png] = replicate 251 CHR ''a''"
    by (simp add: long_png_def)
qed

text \<open>
  A file name of 255 bytes is admissible, the name of its output has 256: line 139
  raises \<open>OSError\<close> before any conversion is tried, and the run ends.
\<close>

lemma long_output_name_ends_run:
  "length long_png = NAME_MAX
   \<and> process_file plain_codec fs_long_name [''in'', long_png] None 80 1 False (Some [''in'']) False
       = Inl (OSError, fs_long_name)
   \<and> process_images plain_codec fs_long_name [[''in'', long_png]] None 80 1 False (Some [''in''])
         False 0 0 []
       = (Uncaught OSError, [], fs_long_name)"
proof -
  let ?f = "[''in'', long_png]"
  let ?out = "[''in'', replicate 251 CHR ''a'' @ ''.webp'']"
  have s: "lower (path_suffix ?f) \<in> set (SUPPORTED_FORMATS plain_codec)"
    by (simp add: long_png_parts lower_def lower_char_def SUPPORTED_FORMATS_def)
  have nn: "path_name ?f \<noteq> []"
    by (simp add: path_name_def long_png_def)
  have g: "get_output_path plain_codec fs_long_name ?f None False (Some [''in''])
             = Inr (?out, fs_long_name)"
    using nn by (simp add: get_output_path_def with_suffix_stem long_png_parts path_parent_def)
  have ne: "replicate 251 CHR ''a'' @ ''.webp'' \<noteq> long_png"
  proof
    assume "replicate 251 CHR ''a'' @ ''.webp'' = long_png"
    then have "length (replicate 251 CHR ''a'' @ ''.webp'') = length long_png" by simp
    then show False by (simp add: long_png_def)
  qed
  have l: "lookup fs_long_name ?out = None"
    using ne by (simp add: lookup_def fs_long_name_def)
  have t: "name_too_long ?out"
    by (simp add: name_too_long_def NAME_MAX_def)
  have x: "output_is_newer fs_long_name ?out ?f = Inl OSError"
    by (simp add: output_is_newer_def Path_exists_def stat_def l t)
  have pf: "process_file plain_codec fs_long_name ?f None 80 1 False (Some [''in'']) False
       = Inl (OSError, fs_long_name)"
    using s by (simp add: process_file_def Let_def g x)
  have "length long_png = NAME_MAX"
    by (simp add: long_png_def NAME_MAX_def)
  with pf show ?thesis by simp
qed



subsection \<open>The parent of the output path\<close>

lemma save_keeps_dirs: "save E fs img out q = (ok, fs') \<Longrightarrow> is_dir fs p \<Longrightarrow> is_dir fs' p"
  by (auto simp: save_def is_dir_def lookup_update
           split: if_splits save_outcome.splits option.splits)

lemma converter_keeps_dirs:
  assumes "(if svg then convert_svg_to_webp E fs1 f out q sc
            else convert_image_to_webp E fs1 f out q) = (ok, fs2)"
    and "is_dir fs1 p"
  shows "is_dir fs2 p"
proof -
  from assms(1) have "fs2 = fs1 \<or> (\<exists>img. save E fs1 img out q = (ok, fs2))"
    using convert_image_to_webp_cases[of E fs1 f out q ok fs2]
          convert_svg_to_webp_cases[of E fs1 f out q sc ok fs2]
    by (auto split: if_splits)
  with assms(2) show ?thesis
    by (auto dest: save_keeps_dirs)
qed

lemma process_file_keeps_dirs:
  assumes r: "process_file E fs f output_dir q sc keep base del = Inr (res, fs')"
    and p: "is_dir fs p"
  shows "is_dir fs' p"
proof (cases "lower (path_suffix f) \<in> set (SUPPORTED_FORMATS E)")
  case False
  with r p show ?thesis by (simp add: process_file_def Let_def)
next
  case sup: True
  show ?thesis
  proof (cases "get_output_path E fs f output_dir keep base")
    case (Inl x)
    with r sup show ?thesis by (simp add: process_file_def Let_def)
  next
    case (Inr x)
    then obtain out fs1 where g: "get_output_path E fs f output_dir keep base = Inr (out, fs1)"
      by (cases x) simp
    from get_output_path_effect[OF g] obtain d where "only_new_dirs E d fs fs1" ..
    from only_new_dirs_is_dir[OF this p] have p1: "is_dir fs1 p" .
    show ?thesis
    proof (cases "output_is_newer fs1 out f")
      case (Inl e)
      with r sup g show ?thesis by (simp add: process_file_def Let_def)
    next
      case nw: (Inr b)
      show ?thesis
      proof (cases b)
        case True
        with r sup g nw p1 show ?thesis by (simp add: process_file_def Let_def)
      next
        case nb: False
        from sup show ?thesis
        proof (cases rule: converter_call_cases[where ?fs1.0 = fs1 and out = out and q = q and sc = sc])
          case (raised fs2)
          with r sup g nw nb show ?thesis by (simp add: process_file_def Let_def)
        next
          case (returned ok fs2)
          from converter_keeps_dirs[OF returned(2) p1] have p2: "is_dir fs2 p" .
          have "fs' = fs2 \<or> (fs' = AList.delete f fs2 \<and> is_file fs2 f)"
            using r sup g nw nb returned(1)
            by (auto simp: process_file_def Let_def
                     split: sum.splits if_splits bool.splits dest: unlink_Inr)
          with p2 show ?thesis
            by (auto simp: is_dir_def is_file_def lookup_delete
                     split: option.splits node.splits if_splits)
        qed
      qed
    qed
  qed
qed

lemma strict_prefix_parent: "strict_prefix d p \<Longrightarrow> prefix d (path_parent p)"
  by (cases p rule: rev_cases) (auto simp: path_parent_def strict_prefix_def)

lemma glob_parent: "p \<in> set (glob fs dir r tail) \<Longrightarrow> is_dir fs (path_parent p)"
proof -
  assume "p \<in> set (glob fs dir r tail)"
  then have s: "strict_prefix dir p"
    and a: "list_all (is_dir fs) (filter (prefix dir) (prefixes (path_parent p)))"
    by (simp_all add: glob_def)
  from strict_prefix_parent[OF s] have "path_parent p \<in> set (filter (prefix dir) (prefixes (path_parent p)))"
    by (simp add: in_set_prefixes)
  with a show ?thesis by (simp add: list_all_iff)
qed

lemma find_images_parent:
  assumes "p \<in> set (find_images E fs dir r)"
    and "is_file fs dir \<longrightarrow> is_dir fs (path_parent dir)"
  shows "is_dir fs (path_parent p)"
  using assms by (auto simp: find_images_def dest: glob_parent split: if_splits)

text \<open>
  The loop on a list \<open>xs @ ys\<close> is the loop on \<open>xs\<close> followed, when that reaches its
  end, by the loop on \<open>ys\<close> from the file system and the counters it has left.
\<close>

lemma process_images_append:
  "process_images E fs (xs @ ys) output_dir q sc keep base del s f printed
     = (case process_images E fs xs output_dir q sc keep base del s f printed of
          (Done s' f', printed', fs') \<Rightarrow>
            process_images E fs' ys output_dir q sc keep base del s' f' printed'
        | r \<Rightarrow> r)"
proof (induction xs arbitrary: fs s f printed)
  case Nil
  then show ?case by simp
next
  case (Cons x xs)
  show ?case
  proof (cases "process_file E fs x output_dir q sc keep base del")
    case (Inl e)
    then show ?thesis by (cases e) simp
  next
    case (Inr r)
    then obtain ok msg fs1 where
      pf: "process_file E fs x output_dir q sc keep base del = Inr ((ok, msg), fs1)"
      by (cases r) auto
    show ?thesis
    proof (cases "if msg \<noteq> Empty then print_line E (Message msg) else None")
      case (Some e)
      with pf show ?thesis by simp
    next
      case None
      with pf Cons.IH show ?thesis by simp
    qed
  qed
qed

text \<open>The directories that the loop finds are there when it reaches the summary.\<close>

lemma process_images_keeps_dirs:
  assumes "process_images E fs images output_dir q sc keep base del s f printed
             = (Done s' f', printed', fs')"
    and "is_dir fs d"
  shows "is_dir fs' d"
  using assms
proof (induction images arbitrary: fs s f printed)
  case Nil
  then show ?case by simp
next
  case (Cons x images)
  show ?case
  proof (cases "process_file E fs x output_dir q sc keep base del")
    case (Inl e)
    with Cons.prems(1) show ?thesis by (cases e) simp
  next
    case (Inr r)
    then obtain ok msg fs1 where
      pf: "process_file E fs x output_dir q sc keep base del = Inr ((ok, msg), fs1)"
      by (cases r) auto
    from process_file_keeps_dirs[OF pf Cons.prems(2)] have d1: "is_dir fs1 d" .
    show ?thesis
    proof (cases "if msg \<noteq> Empty then print_line E (Message msg) else None")
      case (Some e)
      with Cons.prems(1) pf show ?thesis by simp
    next
      case None
      with Cons.prems(1) pf have
        "process_images E fs1 images output_dir q sc keep base del
           (if ok then s + 1 else s) (if ok then f else f + 1)
           (if msg \<noteq> Empty then printed @ [msg] else printed) = (Done s' f', printed', fs')"
        by simp
      from Cons.IH[OF this d1] show ?thesis .
    qed
  qed
qed

text \<open>
  Against C4: \<open>get_output_path\<close> creates a directory in its keep-structure branch
  only.  Called with an output directory that does not exist and \<open>keep_structure\<close>
  off, it returns \<open>out/x.webp\<close> and leaves \<open>out\<close> missing.
\<close>

theorem resolver_alone_leaves_parent_missing:
  "lower (path_suffix [''in'', ''x.png'']) \<in> set (SUPPORTED_FORMATS null_codec)
   \<and> get_output_path null_codec fs_no_out [''in'', ''x.png''] (Some [''out'']) False None
       = Inr ([''out'', ''x.webp''], fs_no_out)
   \<and> \<not> is_dir fs_no_out (path_parent [''out'', ''x.webp''])"
  by (simp add: lower_def lower_char_def path_suffix_def path_name_def rfind_def
        SUPPORTED_FORMATS_def get_output_path_def path_stem_def path_parent_def
        is_dir_def lookup_def fs_no_out_def)

text \<open>
  C4, as the code has it.  In a run of \<open>main\<close> that reaches the loop, the loop is run
  on the file system in which \<open>main\<close> has created the output directory
  (lines 271-273).  Take any image \<open>p\<close> of the walk and the file system \<open>fs_i\<close> in which
  the loop over the images before \<open>p\<close> has ended, which is where the iteration for
  \<open>p\<close> starts: when \<open>get_output_path\<close> returns there, the parent of the returned path
  is a directory of the file system it leaves.  This holds for every combination of
  an output directory given or not and \<open>keep_structure\<close> set or not; the tree is one
  in which every node lies in a directory.
\<close>

theorem main_resolves_into_existing_directories:
  assumes wf: "\<forall>p. lookup fs p \<noteq> None \<longrightarrow> is_dir fs (path_parent p)"
    and inp: "input_path = (case args_input a of None \<Rightarrow> script_dir E @ [''input''] | Some p \<Rightarrow> p)"
    and outp: "output_dir = (if args_input a = None \<and> args_output a = None
                             then Some (script_dir E @ [''output'']) else args_output a)"
    and del: "delete_on_success = (if args_input a = None then \<not> args_no_delete a else False)"
    and pre: "path_exists fs input_path" "1 \<le> args_quality a" "args_quality a \<le> 100"
    and mk: "case output_dir of Some d \<Rightarrow> mkdir E fs d True True = Inr fs1 | None \<Rightarrow> fs1 = fs"
    and images: "images = find_images E fs1 input_path (args_recursive a)" "images \<noteq> []"
    and base: "base_input = (if is_dir fs1 input_path then input_path else path_parent input_path)"
  shows "main E fs a
           = process_images E fs1 images output_dir (args_quality a) (args_scale a)
               (args_keep_structure a) (Some base_input) delete_on_success 0 0 []
       \<and> (\<forall>before p rest s' f' printed' fs_i out fs'.
             images = before @ p # rest
             \<and> process_images E fs1 before output_dir (args_quality a) (args_scale a)
                 (args_keep_structure a) (Some base_input) delete_on_success 0 0 []
                 = (Done s' f', printed', fs_i)
             \<and> lower (path_suffix p) \<in> set (SUPPORTED_FORMATS E)
             \<and> get_output_path E fs_i p output_dir (args_keep_structure a) (Some base_input)
                 = Inr (out, fs')
           \<longrightarrow> is_dir fs' (path_parent out))"
proof (intro conjI allI impI)
  show "main E fs a
           = process_images E fs1 images output_dir (args_quality a) (args_scale a)
               (args_keep_structure a) (Some base_input) delete_on_success 0 0 []"
  proof (cases output_dir)
    case None
    with mk have "fs1 = fs" by simp
    with None inp outp del pre images base show ?thesis
      by (simp add: main_def Let_def)
  next
    case (Some d)
    with mk have "mkdir E fs d True True = Inr fs1" by simp
    with Some inp outp del pre images base show ?thesis
      by (simp add: main_def Let_def)
  qed
next
  fix before p rest s' f' printed' fs_i out fs'
  assume h: "images = before @ p # rest
             \<and> process_images E fs1 before output_dir (args_quality a) (args_scale a)
                 (args_keep_structure a) (Some base_input) delete_on_success 0 0 []
                 = (Done s' f', printed', fs_i)
             \<and> lower (path_suffix p) \<in> set (SUPPORTED_FORMATS E)
             \<and> get_output_path E fs_i p output_dir (args_keep_structure a) (Some base_input)
                 = Inr (out, fs')"
  then have mem: "p \<in> set images"
    and loop: "process_images E fs1 before output_dir (args_quality a) (args_scale a)
                 (args_keep_structure a) (Some base_input) delete_on_success 0 0 []
                 = (Done s' f', printed', fs_i)"
    and sup: "lower (path_suffix p) \<in> set (SUPPORTED_FORMATS E)"
    and g: "get_output_path E fs_i p output_dir (args_keep_structure a) (Some base_input)
                 = Inr (out, fs')"
    by simp_all
  show "is_dir fs' (path_parent out)"
  proof (cases output_dir)
    case None
    with mk have e: "fs1 = fs" by simp
    from pre(1) wf have "is_dir fs (path_parent input_path)"
      by (simp add: path_exists_def)
    with e have ip: "is_file fs1 input_path \<longrightarrow> is_dir fs1 (path_parent input_path)" by simp
    from mem images(1)
    have "p \<in> set (find_images E fs1 input_path (args_recursive a))" by simp
    from find_images_parent[OF this ip] have "is_dir fs1 (path_parent p)" .
    from process_images_keeps_dirs[OF loop this] have d: "is_dir fs_i (path_parent p)" .
    from g None sup have "out = path_parent p @ [path_stem p @ ''.webp'']" "fs' = fs_i"
      by (simp_all add: get_output_path_def with_suffix_stem supported_has_name)
    with d show ?thesis by (simp add: path_parent_snoc)
  next
    case (Some d)
    with mk have "mkdir E fs d True True = Inr fs1" by simp
    from mkdir_effect[OF this] have "is_dir fs1 d" by simp
    from process_images_keeps_dirs[OF loop this] have di: "is_dir fs_i d" .
    show ?thesis
    proof (cases "args_keep_structure a")
      case False
      with g Some have "out = d @ [path_stem p @ ''.webp'']" "fs' = fs_i"
        by (simp_all add: get_output_path_def)
      with di show ?thesis by (simp add: path_parent_snoc)
    next
      case True
      from get_output_path_mirror_Inr[of E fs_i p d base_input out fs'] g Some True
      have o: "out = d @ drop (length base_input) (path_parent p) @ [path_stem p @ ''.webp'']"
        and m: "mkdir E fs_i (d @ drop (length base_input) (path_parent p)) True True = Inr fs'"
        by simp_all
      from o have "path_parent out = d @ drop (length base_input) (path_parent p)"
        by (simp add: path_parent_def butlast_append)
      with mkdir_effect[OF m] show ?thesis by simp
    qed
  qed
qed

lemma walk_no_out:
  "find_images plain_codec (AList.update [''out''] (Dir 50 0) fs_no_out) [''in''] False
     = [[''in'', ''x.png'']]"
  by (simp add: walk_defs fs_no_out_def plain_codec_def)

theorem main_resolves_into_existing_directories_witness:
  "\<not> is_dir fs_no_out [''out'']
   \<and> main plain_codec fs_no_out args_flat
       = process_images plain_codec (AList.update [''out''] (Dir 50 0) fs_no_out)
           [[''in'', ''x.png'']] (Some [''out'']) 80 1 False (Some [''in'']) False 0 0 []
   \<and> get_output_path plain_codec (AList.update [''out''] (Dir 50 0) fs_no_out)
         [''in'', ''x.png''] (Some [''out'']) False (Some [''in''])
       = Inr ([''out'', ''x.webp''], AList.update [''out''] (Dir 50 0) fs_no_out)
   \<and> is_dir (AList.update [''out''] (Dir 50 0) fs_no_out) (path_parent [''out'', ''x.webp''])"
proof -
  let ?fs1 = "AList.update [''out''] (Dir 50 0) fs_no_out"
  let ?p = "[''in'', ''x.png'']"
  have wf: "\<forall>p. lookup fs_no_out p \<noteq> None \<longrightarrow> is_dir fs_no_out (path_parent p)"
    by (auto simp: lookup_def fs_no_out_def is_dir_def path_parent_def split: if_splits)
  have inp: "[''in''] = (case args_input args_flat of None \<Rightarrow> script_dir plain_codec @ [''input'']
                         | Some p \<Rightarrow> p)"
    by (simp add: args_flat_def)
  have outp: "Some [''out''] = (if args_input args_flat = None \<and> args_output args_flat = None
                             then Some (script_dir plain_codec @ [''output''])
                             else args_output args_flat)"
    by (simp add: args_flat_def)
  have del: "False = (if args_input args_flat = None then \<not> args_no_delete args_flat else False)"
    by (simp add: args_flat_def)
  have pre: "path_exists fs_no_out [''in'']" "1 \<le> args_quality args_flat"
    "args_quality args_flat \<le> 100"
    by (simp_all add: path_exists_def lookup_def fs_no_out_def args_flat_def)
  have "os_mkdir plain_codec fs_no_out [''out''] = Inr ?fs1"
    by (simp add: os_mkdir_def path_exists_def lookup_def fs_no_out_def path_parent_def
          plain_codec_def)
  then have "mkdir plain_codec fs_no_out [''out''] True True = Inr ?fs1"
    by (simp add: mkdir.simps[of plain_codec fs_no_out "[''out'']"])
  then have mk: "case Some [''out''] of Some d \<Rightarrow> mkdir plain_codec fs_no_out d True True = Inr ?fs1
                 | None \<Rightarrow> ?fs1 = fs_no_out"
    by simp
  have images: "[?p] = find_images plain_codec ?fs1 [''in''] (args_recursive args_flat)" "[?p] \<noteq> []"
    by (simp_all add: walk_no_out args_flat_def)
  have base: "[''in''] = (if is_dir ?fs1 [''in''] then [''in''] else path_parent [''in''])"
    by (simp add: is_dir_def lookup_update) (simp add: lookup_def fs_no_out_def)
  note t = main_resolves_into_existing_directories[OF wf inp outp del pre mk images base]
  have q: "args_quality args_flat = 80" "args_scale args_flat = 1" "\<not> args_keep_structure args_flat"
    by (simp_all add: args_flat_def)
  have split: "[?p] = [] @ ?p # []"
    by simp
  have loop: "process_images plain_codec ?fs1 [] (Some [''out''])
                 (args_quality args_flat) (args_scale args_flat) (args_keep_structure args_flat)
                 (Some [''in'']) False 0 0 [] = (Done 0 0, [], ?fs1)"
    by simp
  have sup: "lower (path_suffix ?p) \<in> set (SUPPORTED_FORMATS plain_codec)"
    using supported_png(2)[of "[''in'']" plain_codec] by simp
  have g: "get_output_path plain_codec ?fs1 ?p (Some [''out'']) False (Some [''in''])
             = Inr ([''out'', ''x.webp''], ?fs1)"
    by (simp add: get_output_path_def path_stem_def path_name_def rfind_def)
  from g q have g': "get_output_path plain_codec ?fs1 ?p (Some [''out''])
                       (args_keep_structure args_flat) (Some [''in''])
                     = Inr ([''out'', ''x.webp''], ?fs1)"
    by simp
  have 1: "main plain_codec fs_no_out args_flat
       = process_images plain_codec ?fs1 [?p] (Some [''out'']) 80 1 False (Some [''in'']) False 0 0 []"
    using t[THEN conjunct1] q by simp
  have 2: "is_dir ?fs1 (path_parent [''out'', ''x.webp''])"
    by (rule t[THEN conjunct2, THEN spec, THEN spec, THEN spec, THEN spec, THEN spec,
               THEN spec, THEN spec, THEN spec, THEN spec, THEN mp])
       (rule conjI, rule split, rule conjI, rule loop, rule conjI, rule sup, rule g')
  have 0: "\<not> is_dir fs_no_out [''out'']"
    by (simp add: is_dir_def lookup_def fs_no_out_def)
  from 0 1 g 2 show ?thesis by (intro conjI)
qed
end
